theory Spec2Isabelle
  imports Complex_Main "HOL-Library.Sublist"
begin

section \<open>Data model\<close>

text \<open>
  The payment router of \<^verbatim>\<open>app.py\<close> (class \<^verbatim>\<open>PaymentProcessor\<close>) and the circuit
  breaker of \<^verbatim>\<open>optimizations.py\<close> (class \<^verbatim>\<open>PerformanceOptimizer\<close>).

  Python floats (amounts, \<^verbatim>\<open>time.time()\<close>) are modelled as reals: the code only copies
  amounts, and on timestamps it subtracts and compares with 5 and 30. The one rounded
  float operation, the product \<^verbatim>\<open>time.time() * 1000\<close> of line 115, is a function of
  the environment.

  What \<^verbatim>\<open>check_health\<close> returns is a decoded JSON value. A dictionary is an
  association list of string keys and string values, and \<^verbatim>\<open>d.get(k)\<close> is
  \<open>map_of d k\<close>; a value that is no string differs from \<^verbatim>\<open>"healthy"\<close> as any other
  string does. Every other JSON value (a list, a number, a string, \<^verbatim>\<open>null\<close>) has no
  method \<^verbatim>\<open>get\<close>.
\<close>

datatype health = JsonObject "(string \<times> string) list" | JsonOther

record PaymentRequest =
  amount :: real
  description :: "string option"

text \<open>Class \<^verbatim>\<open>PaymentResponse\<close>; its fields \<^verbatim>\<open>id\<close> and \<^verbatim>\<open>amount\<close> carry a suffix here.\<close>

record PaymentResponse =
  id_resp :: string
  amount_resp :: real
  status :: string
  processor :: string
  timestamp :: real

text \<open>An entry of the dictionary \<^verbatim>\<open>circuit_breaker\<close>.\<close>

record breaker_entry =
  last_failure :: real
  failure_count :: int

datatype error = HTTPException nat string | AttributeError | OtherException string

text \<open>
  What a call to a downstream service gives back. A health probe answers with a status
  code and the decoded JSON body, or raises (connection error, timeout, a body that is
  no JSON); the string is \<^verbatim>\<open>str(e)\<close>. A payment POST answers with a status code and
  whether its body decodes as JSON (line 164 decodes it), or raises.
\<close>

datatype probe_outcome = ProbeResponse nat health | ProbeRaised string

datatype post_outcome = PostResponse nat bool | PostRaised string

datatype log_site = LogHealth | LogProcess | LogFallback | LogSave | LogCache

text \<open>The effects the code performs on the outside, in the order it performs them.\<close>

datatype event =
    HealthProbe string
  | PaymentPost string PaymentRequest
  | Sleep real
  | DbCommit PaymentResponse "string option"
  | RedisHset string PaymentResponse
  | LogError log_site

text \<open>
  The environment answers every read of the outside world. Each read takes the answer
  for the current \<open>tick\<close> and advances the tick, so two reads of one run are free to
  differ. \<open>hash_str\<close> is \<^verbatim>\<open>hash(str(payment_request))\<close> of the running process,
  \<open>float_mul\<close> the rounded product of two floats.
\<close>

record env =
  clock :: "nat \<Rightarrow> real"
  health_reply :: "nat \<Rightarrow> string \<Rightarrow> probe_outcome"
  payment_reply :: "nat \<Rightarrow> string \<Rightarrow> post_outcome"
  db_raises :: "nat \<Rightarrow> bool"
  redis_raises :: "nat \<Rightarrow> bool"
  hash_str :: "PaymentRequest \<Rightarrow> int"
  float_mul :: "real \<Rightarrow> real \<Rightarrow> real"

text \<open>
  The state of the process: the attributes of the instance \<^verbatim>\<open>payment_processor\<close>, the
  dictionary \<^verbatim>\<open>circuit_breaker\<close> of the instance \<^verbatim>\<open>performance_optimizer\<close>, whether
  the global \<^verbatim>\<open>redis_client\<close> is set, and the effects performed so far.
\<close>

record world =
  default_url :: string
  fallback_url :: string
  health_cache :: "string \<rightharpoonup> health"
  last_health_check :: "string \<rightharpoonup> real"
  circuit_breaker :: "string \<rightharpoonup> breaker_entry"
  redis_client :: bool
  tick :: nat
  effects :: "event list"

definition initial_world :: "string \<Rightarrow> string \<Rightarrow> bool \<Rightarrow> world" where
  "initial_world d f r =
     \<lparr>default_url = d, fallback_url = f, health_cache = Map.empty,
      last_health_check = Map.empty, circuit_breaker = Map.empty,
      redis_client = r, tick = 0, effects = []\<rparr>"

section \<open>Reads and effects\<close>

definition time_time :: "env \<Rightarrow> world \<Rightarrow> real \<times> world" where
  "time_time e w = (clock e (tick w), w\<lparr>tick := Suc (tick w)\<rparr>)"

definition emit :: "event \<Rightarrow> world \<Rightarrow> world" where
  "emit ev w = w\<lparr>effects := effects w @ [ev]\<rparr>"

definition http_get :: "env \<Rightarrow> string \<Rightarrow> world \<Rightarrow> probe_outcome \<times> world" where
  "http_get e url w =
     (health_reply e (tick w) url, emit (HealthProbe url) (w\<lparr>tick := Suc (tick w)\<rparr>))"

definition http_post :: "env \<Rightarrow> string \<Rightarrow> PaymentRequest \<Rightarrow> world \<Rightarrow> post_outcome \<times> world" where
  "http_post e url req w =
     (payment_reply e (tick w) url, emit (PaymentPost url req) (w\<lparr>tick := Suc (tick w)\<rparr>))"

section \<open>Decimal strings\<close>

definition digit :: "nat \<Rightarrow> char" where
  "digit n = ''0123456789'' ! n"

fun str_nat :: "nat \<Rightarrow> string" where
  "str_nat n = (if n < 10 then [digit n] else str_nat (n div 10) @ [digit (n mod 10)])"

declare str_nat.simps [simp del]

definition str_int :: "int \<Rightarrow> string" where
  "str_int i = (if i < 0 then CHR ''-'' # str_nat (nat (- i)) else str_nat (nat i))"

text \<open>Python's \<^verbatim>\<open>int(x)\<close> on a float truncates towards zero.\<close>

definition py_int :: "real \<Rightarrow> int" where
  "py_int x = (if 0 \<le> x then \<lfloor>x\<rfloor> else \<lceil>x\<rceil>)"

section \<open>The circuit breaker of optimizations.py\<close>

text \<open>\<^verbatim>\<open>PerformanceOptimizer.is_circuit_open\<close>: the answer and the state after the call.\<close>

definition is_circuit_open :: "env \<Rightarrow> string \<Rightarrow> world \<Rightarrow> bool \<times> world" where
  "is_circuit_open e service_url w =
     (case circuit_breaker w service_url of
        None \<Rightarrow> (False, w)
      | Some entry \<Rightarrow>
          (let (current_time, w1) = time_time e w in
           if failure_count entry \<ge> 5 then
             (if current_time - last_failure entry > 30 then
                (False, w1\<lparr>circuit_breaker := (circuit_breaker w1)
                   (service_url \<mapsto> \<lparr>last_failure = 0, failure_count = 0\<rparr>)\<rparr>)
              else (True, w1))
           else (False, w1)))"

text \<open>\<^verbatim>\<open>PerformanceOptimizer.record_failure\<close>\<close>

definition record_failure :: "env \<Rightarrow> string \<Rightarrow> world \<Rightarrow> world" where
  "record_failure e service_url w =
     (let (now, w1) = time_time e w in
      case circuit_breaker w1 service_url of
        None \<Rightarrow> w1\<lparr>circuit_breaker := (circuit_breaker w1)
                  (service_url \<mapsto> \<lparr>last_failure = now, failure_count = 1\<rparr>)\<rparr>
      | Some entry \<Rightarrow> w1\<lparr>circuit_breaker := (circuit_breaker w1)
                  (service_url \<mapsto> \<lparr>last_failure = now,
                                     failure_count = failure_count entry + 1\<rparr>)\<rparr>)"


section \<open>The payment processor of app.py\<close>

definition simulated :: "string \<Rightarrow> bool" where
  "simulated url = sublist ''payment-processor'' url"

definition simulator_health :: health where
  "simulator_health
     = JsonObject [(''status'', ''healthy''), (''processor'', ''local-simulator'')]"

text \<open>\<^verbatim>\<open>PaymentProcessor.check_health\<close>\<close>

definition check_health :: "env \<Rightarrow> string \<Rightarrow> world \<Rightarrow> health \<times> world" where
  "check_health e processor_url w =
     (let (current_time, w1) = time_time e w in
      if (case last_health_check w1 processor_url of
            None \<Rightarrow> False | Some t \<Rightarrow> current_time - t < 5)
      then (case health_cache w1 processor_url of
              None \<Rightarrow> JsonObject [(''status'', ''unknown'')] | Some h \<Rightarrow> h, w1)
      else if simulated processor_url then
        (simulator_health,
         w1\<lparr>health_cache := (health_cache w1)(processor_url \<mapsto> simulator_health),
            last_health_check := (last_health_check w1)(processor_url \<mapsto> current_time)\<rparr>)
      else
        (case http_get e processor_url w1 of
           (ProbeResponse code health_data, w2) \<Rightarrow>
             if code = 200 then
               (health_data,
                w2\<lparr>health_cache := (health_cache w2)(processor_url \<mapsto> health_data),
                   last_health_check := (last_health_check w2)(processor_url \<mapsto> current_time)\<rparr>)
             else (JsonObject [(''status'', ''unhealthy''),
                               (''error'', ''HTTP '' @ str_nat code)], w2)
         | (ProbeRaised msg, w2) \<Rightarrow>
             (JsonObject [(''status'', ''unhealthy''), (''error'', msg)],
              emit (LogError LogHealth) w2)))"

text \<open>
  \<^verbatim>\<open>PaymentProcessor.save_payment\<close>: the whole body is inside \<^verbatim>\<open>try\<close>; whatever it
  raises is logged and the method returns normally.
\<close>

definition save_payment :: "env \<Rightarrow> PaymentResponse \<Rightarrow> string option \<Rightarrow> world \<Rightarrow> world" where
  "save_payment e payment desc w =
     (let w1 = w\<lparr>tick := Suc (tick w)\<rparr> in
      if db_raises e (tick w) then emit (LogError LogSave) w1
      else emit (DbCommit payment desc) w1)"

text \<open>\<^verbatim>\<open>PaymentProcessor.cache_payment\<close>: writes only when \<^verbatim>\<open>redis_client\<close> is set.\<close>

definition cache_payment :: "env \<Rightarrow> PaymentResponse \<Rightarrow> world \<Rightarrow> world" where
  "cache_payment e payment w =
     (if redis_client w then
        (let w1 = w\<lparr>tick := Suc (tick w)\<rparr> in
         if redis_raises e (tick w) then emit (LogError LogCache) w1
         else emit (RedisHset (id_resp payment) payment) w1)
      else w)"

text \<open>
  The block the source repeats on each of its four success paths: build the response
  with the given processor name, save it, cache it, return it.
\<close>

definition succeed ::
  "env \<Rightarrow> PaymentRequest \<Rightarrow> string \<Rightarrow> string \<Rightarrow> world \<Rightarrow> (error + PaymentResponse) \<times> world" where
  "succeed e payment_request payment_id name w =
     (let (t, w1) = time_time e w;
          payment_response = \<lparr>id_resp = payment_id, amount_resp = amount payment_request,
             status = ''processed'', processor = name, timestamp = t\<rparr>;
          w2 = save_payment e payment_response (description payment_request) w1;
          w3 = cache_payment e payment_response w2
      in (Inr payment_response, w3))"

text \<open>The \<^verbatim>\<open>try\<close> body of \<^verbatim>\<open>process_with_fallback\<close>.\<close>

definition fallback_attempt ::
  "env \<Rightarrow> PaymentRequest \<Rightarrow> string \<Rightarrow> world \<Rightarrow> (error + PaymentResponse) \<times> world" where
  "fallback_attempt e payment_request payment_id w =
     (if simulated (fallback_url w) then
        succeed e payment_request payment_id ''local-simulator-fallback'' (emit (Sleep 0.1) w)
      else
        (case http_post e (fallback_url w) payment_request w of
           (PostResponse code json_ok, w1) \<Rightarrow>
             if code = 200 then succeed e payment_request payment_id ''fallback'' w1
             else (Inl (HTTPException 500 ''Fallback payment processing failed''), w1)
         | (PostRaised msg, w1) \<Rightarrow> (Inl (OtherException msg), w1)))"

text \<open>\<^verbatim>\<open>PaymentProcessor.process_with_fallback\<close>: every exception of the body is logged
  and replaced by \<^verbatim>\<open>HTTPException(500)\<close>.\<close>

definition process_with_fallback ::
  "env \<Rightarrow> PaymentRequest \<Rightarrow> string \<Rightarrow> world \<Rightarrow> (error + PaymentResponse) \<times> world" where
  "process_with_fallback e payment_request payment_id w =
     (case fallback_attempt e payment_request payment_id w of
        (Inr payment_response, w1) \<Rightarrow> (Inr payment_response, w1)
      | (Inl exc, w1) \<Rightarrow>
          (Inl (HTTPException 500 ''Payment processing failed''),
           emit (LogError LogFallback) w1))"

text \<open>Line 115: \<^verbatim>\<open>f"pay_{int(time.time() * 1000)}_{hash(str(payment_request))}"\<close>\<close>

definition make_payment_id :: "env \<Rightarrow> real \<Rightarrow> PaymentRequest \<Rightarrow> string" where
  "make_payment_id e t payment_request =
     ''pay_'' @ str_int (py_int (float_mul e t 1000)) @ ''_''
       @ str_int (hash_str e payment_request)"

text \<open>\<^verbatim>\<open>h.get("status")\<close>: the value, or the exception when \<open>h\<close> is no dictionary.\<close>

definition get_status :: "health \<Rightarrow> error + string option" where
  "get_status h = (case h of JsonObject d \<Rightarrow> Inr (map_of d ''status'')
                   | JsonOther \<Rightarrow> Inl AttributeError)"

text \<open>
  Lines 122 to 131: the selection of the processor from the two health results. The
  status of the fallback is read only when the default is not healthy.
\<close>

definition select_processor :: "world \<Rightarrow> health \<Rightarrow> health \<Rightarrow> error + string \<times> string" where
  "select_processor w default_health fallback_health =
     (case get_status default_health of
        Inl exc \<Rightarrow> Inl exc
      | Inr default_status \<Rightarrow>
          if default_status = Some ''healthy'' then Inr (default_url w, ''default'')
          else (case get_status fallback_health of
                  Inl exc \<Rightarrow> Inl exc
                | Inr fallback_status \<Rightarrow>
                    if fallback_status = Some ''healthy''
                    then Inr (fallback_url w, ''fallback'')
                    else Inr (default_url w, ''default'')))"

text \<open>
  The \<^verbatim>\<open>try\<close> body of \<^verbatim>\<open>process_payment\<close> (lines 134 to 185). The call of
  \<^verbatim>\<open>process_with_fallback\<close> at line 183 is inside the \<^verbatim>\<open>try\<close>, so what it raises is
  handled by the \<^verbatim>\<open>except\<close> of \<^verbatim>\<open>process_payment\<close> like any other exception, and
  so is what \<^verbatim>\<open>fallback_health.get\<close> raises at line 182, which is evaluated only
  for the default processor.
\<close>

definition attempt ::
  "env \<Rightarrow> PaymentRequest \<Rightarrow> string \<Rightarrow> string \<Rightarrow> string \<Rightarrow> health \<Rightarrow> world
     \<Rightarrow> (error + PaymentResponse) \<times> world" where
  "attempt e payment_request payment_id processor_url processor_name fallback_health w =
     (if simulated processor_url then
        succeed e payment_request payment_id ''local-simulator'' (emit (Sleep 0.1) w)
      else
        (case http_post e processor_url payment_request w of
           (PostResponse code json_ok, w1) \<Rightarrow>
             if code = 200 then
               (if json_ok then succeed e payment_request payment_id processor_name w1
                else (Inl (OtherException ''JSONDecodeError''), w1))
             else if processor_name = ''default'' then
               (case get_status fallback_health of
                  Inl exc \<Rightarrow> (Inl exc, w1)
                | Inr fallback_status \<Rightarrow>
                    if fallback_status = Some ''healthy'' then
                      process_with_fallback e payment_request payment_id w1
                    else (Inl (HTTPException 500 ''Payment processing failed''), w1))
             else (Inl (HTTPException 500 ''Payment processing failed''), w1)
         | (PostRaised msg, w1) \<Rightarrow> (Inl (OtherException msg), w1)))"

text \<open>
  \<^verbatim>\<open>PaymentProcessor.process_payment\<close>: the result, or the exception it raises, and
  the state after the call. The selection of lines 122 to 131 is outside the \<^verbatim>\<open>try\<close>
  of line 134: what it raises leaves the method.
\<close>

definition process_payment ::
  "env \<Rightarrow> PaymentRequest \<Rightarrow> world \<Rightarrow> (error + PaymentResponse) \<times> world" where
  "process_payment e payment_request w =
     (let (t, w0) = time_time e w;
          payment_id = make_payment_id e t payment_request;
          (default_health, w1) = check_health e (default_url w0) w0;
          (fallback_health, w2) = check_health e (fallback_url w1) w1
      in case select_processor w2 default_health fallback_health of
           Inl exc \<Rightarrow> (Inl exc, w2)
         | Inr (processor_url, processor_name) \<Rightarrow>
             (case attempt e payment_request payment_id processor_url processor_name
                     fallback_health w2 of
                (Inr payment_response, w3) \<Rightarrow> (Inr payment_response, w3)
              | (Inl exc, w3) \<Rightarrow>
                  (let w4 = emit (LogError LogProcess) w3 in
                   if processor_name = ''default'' then
                     process_with_fallback e payment_request payment_id w4
                   else (Inl (HTTPException 500 ''Payment processing failed''), w4))))"

section \<open>Concrete runs\<close>

text \<open>
  Two endpoints that are not simulated, an environment in which every probe answers
  healthy, every payment answers 200 and nothing raises, and the state of a process
  that has just started. The clock advances one second per read, and float products
  are exact.
\<close>

definition calm_env :: env where
  "calm_env =
     \<lparr>clock = real,
      health_reply = (\<lambda>k url. ProbeResponse 200 (JsonObject [(''status'', ''healthy'')])),
      payment_reply = (\<lambda>k url. PostResponse 200 True),
      db_raises = (\<lambda>k. False),
      redis_raises = (\<lambda>k. False),
      hash_str = (\<lambda>r. 0),
      float_mul = (\<lambda>x y. x * y)\<rparr>"

definition primary :: string where "primary = ''http://primary:8080''"
definition secondary :: string where "secondary = ''http://secondary:8080''"

definition live_world :: world where
  "live_world = initial_world primary secondary True"

definition hundred :: PaymentRequest where
  "hundred = \<lparr>amount = 100, description = Some ''Teste''\<rparr>"

text \<open>The primary answers its probe with 503, the secondary is healthy, and every
  payment POST answers 500.\<close>

definition primary_down_env :: env where
  "primary_down_env = calm_env
     \<lparr>health_reply := (\<lambda>k url. if url = primary then ProbeResponse 503 (JsonObject [])
                              else ProbeResponse 200 (JsonObject [(''status'', ''healthy'')])),
      payment_reply := (\<lambda>k url. PostResponse 500 False)\<rparr>"

text \<open>Every payment POST to the primary answers 500, the secondary answers 200.\<close>

definition primary_fails_env :: env where
  "primary_fails_env = calm_env
     \<lparr>payment_reply := (\<lambda>k url. if url = primary then PostResponse 500 False
                               else PostResponse 200 True)\<rparr>"

text \<open>Five failures of the primary have just been recorded.\<close>

definition tripped_world :: world where
  "tripped_world = (record_failure calm_env primary ^^ 5) live_world"

text \<open>The first two reads of the environment find the endpoint answering 503, the later
  ones find it healthy.\<close>

definition recovering_env :: env where
  "recovering_env = calm_env
     \<lparr>health_reply := (\<lambda>k url. if k < 2 then ProbeResponse 503 (JsonObject [])
                              else ProbeResponse 200 (JsonObject [(''status'', ''healthy'')]))\<rparr>"

text \<open>The configuration of lines 26 and 27 when the environment variables are not set.\<close>

definition default_world :: world where
  "default_world = initial_world ''http://payment-processor-default:8080''
     ''http://payment-processor-fallback:8080'' True"

text \<open>A clock that starts at 1000 seconds and advances ten microseconds per read.\<close>

definition burst_env :: env where
  "burst_env = calm_env\<lparr>clock := (\<lambda>k. 1000 + real k / 100000)\<rparr>"

definition minus_one :: PaymentRequest where
  "minus_one = \<lparr>amount = - 1, description = None\<rparr>"

text \<open>The database and Redis raise on every write.\<close>

definition storage_down_env :: env where
  "storage_down_env = calm_env\<lparr>db_raises := (\<lambda>k. True), redis_raises := (\<lambda>k. True)\<rparr>"


text \<open>Every health probe answers 200 with a JSON body that is no object, such as
  \<^verbatim>\<open>[]\<close>.\<close>

definition odd_health_env :: env where
  "odd_health_env = calm_env\<lparr>health_reply := (\<lambda>k url. ProbeResponse 200 JsonOther)\<rparr>"

section \<open>Notions used by the statements\<close>

text \<open>
  The first lines of \<^verbatim>\<open>process_payment\<close> (115 to 119): the time read for the payment
  id and the two health checks, with the state they leave.
\<close>

definition health_checks :: "env \<Rightarrow> world \<Rightarrow> real \<times> health \<times> health \<times> world" where
  "health_checks e w =
     (let (t, w0) = time_time e w;
          (default_health, w1) = check_health e (default_url w0) w0;
          (fallback_health, w2) = check_health e (fallback_url w1) w1
      in (t, default_health, fallback_health, w2))"

text \<open>
  The test of lines 163 and 164 on the answer to a payment POST: status 200 and a body
  that decodes. \<^verbatim>\<open>process_with_fallback\<close> (line 223) looks at the status only.
\<close>

definition accepted :: "post_outcome \<Rightarrow> bool" where
  "accepted outcome = (case outcome of PostResponse code json_ok \<Rightarrow> code = 200 \<and> json_ok
                       | PostRaised msg \<Rightarrow> False)"

definition answered_200 :: "post_outcome \<Rightarrow> bool" where
  "answered_200 outcome = (case outcome of PostResponse code json_ok \<Rightarrow> code = 200
                           | PostRaised msg \<Rightarrow> False)"

text \<open>A step that only reads the environment and performs effects: every attribute of
  the two instances is left as it was.\<close>

definition io_only :: "world \<Rightarrow> world \<Rightarrow> bool" where
  "io_only w w' \<longleftrightarrow> w' = w\<lparr>tick := tick w', effects := effects w'\<rparr>"



text \<open>The state \<open>w'\<close> comes from \<open>w\<close> by performing further effects, all of
  them satisfying \<open>P\<close>.\<close>

definition appends :: "(event \<Rightarrow> bool) \<Rightarrow> world \<Rightarrow> world \<Rightarrow> bool" where
  "appends P w w' \<longleftrightarrow> (\<exists>evs. effects w' = effects w @ evs \<and> list_all P evs)"

text \<open>The record an effect writes to the database or to Redis, if it writes one.\<close>

fun record_of :: "event \<Rightarrow> PaymentResponse option" where
  "record_of (DbCommit payment desc) = Some payment"
| "record_of (RedisHset key payment) = Some payment"
| "record_of ev = None"

text \<open>The four processor names that the source writes into a response.\<close>

definition processor_names :: "string set" where
  "processor_names = {''local-simulator'', ''default'', ''fallback'', ''local-simulator-fallback''}"

definition named :: "event \<Rightarrow> bool" where
  "named ev = (case record_of ev of None \<Rightarrow> True | Some p \<Rightarrow> processor p \<in> processor_names)"

text \<open>What the health cache holds for a simulated endpoint once it has been checked.\<close>

definition simulated_cached :: "world \<Rightarrow> bool" where
  "simulated_cached w \<longleftrightarrow>
     (\<forall>url. simulated url \<longrightarrow> last_health_check w url \<noteq> None
        \<longrightarrow> health_cache w url = Some simulator_health)"


section \<open>How each method runs\<close>

lemma io_only_refl: "io_only w w"
  by (simp add: io_only_def)

lemma io_only_trans: "io_only a b \<Longrightarrow> io_only b c \<Longrightarrow> io_only a c"
  unfolding io_only_def by (metis (no_types, lifting) world.surjective world.update_convs(7,8))

lemma io_only_emit: "io_only w (emit ev w)"
  by (simp add: io_only_def emit_def)

lemma io_only_time: "io_only w (snd (time_time e w))"
  by (simp add: io_only_def time_time_def)

lemma io_only_post: "io_only w (snd (http_post e url req w))"
  by (simp add: io_only_def http_post_def emit_def)

lemma io_only_save: "io_only w (save_payment e p d w)"
  by (simp add: io_only_def save_payment_def emit_def Let_def)

lemma io_only_cache: "io_only w (cache_payment e p w)"
  by (simp add: io_only_def cache_payment_def emit_def Let_def)

lemma io_only_succeed: "io_only w (snd (succeed e r pid n w))"
  by (simp add: io_only_def succeed_def save_payment_def cache_payment_def emit_def
      time_time_def Let_def)

lemma io_only_fields:
  "io_only w w' \<Longrightarrow> default_url w' = default_url w \<and> fallback_url w' = fallback_url w
     \<and> health_cache w' = health_cache w \<and> last_health_check w' = last_health_check w
     \<and> circuit_breaker w' = circuit_breaker w \<and> redis_client w' = redis_client w"
  unfolding io_only_def by (metis world.select_convs(1-6) world.surjective world.update_convs(7,8))


lemma http_post_fst: "fst (http_post e url req w) = payment_reply e (tick w) url"
  by (simp add: http_post_def)

lemma http_post_tick: "tick (snd (http_post e url req w)) = Suc (tick w)"
  by (simp add: http_post_def emit_def)

lemma http_post_effects:
  "effects (snd (http_post e url req w)) = effects w @ [PaymentPost url req]"
  by (simp add: http_post_def emit_def)

lemma succeed_result:
  "fst (succeed e r pid n w) =
     Inr \<lparr>id_resp = pid, amount_resp = amount r, status = ''processed'', processor = n,
          timestamp = clock e (tick w)\<rparr>"
  by (simp add: succeed_def time_time_def Let_def)

text \<open>The body of process_with_fallback, case by case.\<close>

lemma fallback_attempt_simulated:
  "simulated (fallback_url w) \<Longrightarrow>
   fallback_attempt e r pid w = succeed e r pid ''local-simulator-fallback'' (emit (Sleep 0.1) w)"
  by (simp add: fallback_attempt_def)

lemma fallback_attempt_200:
  "\<not> simulated (fallback_url w) \<Longrightarrow> answered_200 (payment_reply e (tick w) (fallback_url w)) \<Longrightarrow>
   fallback_attempt e r pid w = succeed e r pid ''fallback'' (snd (http_post e (fallback_url w) r w))"
  by (auto simp add: fallback_attempt_def answered_200_def http_post_def
      split: post_outcome.splits)

lemma fallback_attempt_fails:
  "\<not> simulated (fallback_url w) \<Longrightarrow> \<not> answered_200 (payment_reply e (tick w) (fallback_url w)) \<Longrightarrow>
   \<exists>x. fallback_attempt e r pid w = (Inl x, snd (http_post e (fallback_url w) r w))"
  by (auto simp add: fallback_attempt_def answered_200_def http_post_def
      split: post_outcome.splits)

lemma succeed_pair: "\<exists>p v. succeed e r pid n w = (Inr p, v)"
  by (simp add: succeed_def time_time_def Let_def)

lemma process_with_fallback_simulated:
  assumes "simulated (fallback_url w)"
  shows "process_with_fallback e r pid w
     = succeed e r pid ''local-simulator-fallback'' (emit (Sleep 0.1) w)"
proof -
  obtain p v where s: "succeed e r pid ''local-simulator-fallback'' (emit (Sleep 0.1) w) = (Inr p, v)"
    using succeed_pair by blast
  show ?thesis
    unfolding process_with_fallback_def fallback_attempt_simulated [OF assms] s by simp
qed

lemma process_with_fallback_200:
  assumes "\<not> simulated (fallback_url w)"
    and "answered_200 (payment_reply e (tick w) (fallback_url w))"
  shows "process_with_fallback e r pid w
     = succeed e r pid ''fallback'' (snd (http_post e (fallback_url w) r w))"
proof -
  obtain p v where s: "succeed e r pid ''fallback'' (snd (http_post e (fallback_url w) r w)) = (Inr p, v)"
    using succeed_pair by blast
  show ?thesis
    unfolding process_with_fallback_def fallback_attempt_200 [OF assms] s by simp
qed

lemma process_with_fallback_fails:
  assumes "\<not> simulated (fallback_url w)"
    and "\<not> answered_200 (payment_reply e (tick w) (fallback_url w))"
  shows "process_with_fallback e r pid w =
     (Inl (HTTPException 500 ''Payment processing failed''),
      emit (LogError LogFallback) (snd (http_post e (fallback_url w) r w)))"
proof -
  obtain x where "fallback_attempt e r pid w = (Inl x, snd (http_post e (fallback_url w) r w))"
    using fallback_attempt_fails [OF assms] by blast
  then show ?thesis by (simp add: process_with_fallback_def)
qed

lemma io_only_process_with_fallback: "io_only w (snd (process_with_fallback e r pid w))"
proof (cases "simulated (fallback_url w)")
  case True
  show ?thesis
    unfolding process_with_fallback_simulated [OF True]
    by (rule io_only_trans [OF io_only_emit io_only_succeed])
next
  case False
  show ?thesis
  proof (cases "answered_200 (payment_reply e (tick w) (fallback_url w))")
    case True
    show ?thesis
      unfolding process_with_fallback_200 [OF False True]
      by (rule io_only_trans [OF io_only_post io_only_succeed])
  next
    case f: False
    show ?thesis
      unfolding process_with_fallback_fails [OF False f] snd_conv
      by (rule io_only_trans [OF io_only_post io_only_emit])
  qed
qed

text \<open>An error of process_with_fallback: the POST to the fallback endpoint failed.\<close>

lemma process_with_fallback_error:
  assumes "fst (process_with_fallback e r pid w) = Inl x"
  shows "x = HTTPException 500 ''Payment processing failed''
     \<and> \<not> simulated (fallback_url w)
     \<and> \<not> answered_200 (payment_reply e (tick w) (fallback_url w))
     \<and> snd (process_with_fallback e r pid w)
         = emit (LogError LogFallback) (snd (http_post e (fallback_url w) r w))"
proof (cases "simulated (fallback_url w)")
  case True
  then show ?thesis
    using assms by (simp add: process_with_fallback_simulated succeed_result)
next
  case False
  show ?thesis
  proof (cases "answered_200 (payment_reply e (tick w) (fallback_url w))")
    case True
    then show ?thesis
      using assms False by (simp add: process_with_fallback_200 succeed_result)
  next
    case f: False
    show ?thesis
      using process_with_fallback_fails [OF False f] assms False f by simp
  qed
qed


text \<open>The body of process_payment, case by case.\<close>

lemma attempt_simulated:
  "simulated url \<Longrightarrow>
   attempt e r pid url name fh w = succeed e r pid ''local-simulator'' (emit (Sleep 0.1) w)"
  by (simp add: attempt_def)

lemma attempt_accepted:
  "\<not> simulated url \<Longrightarrow> accepted (payment_reply e (tick w) url) \<Longrightarrow>
   attempt e r pid url name fh w = succeed e r pid name (snd (http_post e url r w))"
  by (auto simp add: attempt_def accepted_def http_post_def split: post_outcome.splits)

lemma attempt_rejected:
  "\<not> simulated url \<Longrightarrow> \<not> accepted (payment_reply e (tick w) url) \<Longrightarrow>
   (\<exists>x. attempt e r pid url name fh w = (Inl x, snd (http_post e url r w)))
   \<or> (name = ''default''
       \<and> attempt e r pid url name fh w
           = process_with_fallback e r pid (snd (http_post e url r w)))"
  by (auto simp add: attempt_def accepted_def http_post_def
      split: post_outcome.splits sum.splits)

lemma attempt_rejected_fallback:
  "\<not> simulated url \<Longrightarrow> \<not> accepted (payment_reply e (tick w) url) \<Longrightarrow> name \<noteq> ''default'' \<Longrightarrow>
   \<exists>x. attempt e r pid url name fh w = (Inl x, snd (http_post e url r w))"
  using attempt_rejected by blast

lemma process_payment_unselected:
  assumes "health_checks e w = (t, dh, fh, w2)"
    and "select_processor w2 dh fh = Inl x"
  shows "process_payment e r w = (Inl x, w2)"
  using assms
  by (auto simp add: process_payment_def health_checks_def Let_def split: prod.splits)

lemma process_payment_unfold:
  assumes "health_checks e w = (t, dh, fh, w2)"
    and "select_processor w2 dh fh = Inr (url, name)"
  shows "process_payment e r w =
     (case attempt e r (make_payment_id e t r) url name fh w2 of
        (Inr p, w3) \<Rightarrow> (Inr p, w3)
      | (Inl x, w3) \<Rightarrow>
          if name = ''default'' then
            process_with_fallback e r (make_payment_id e t r) (emit (LogError LogProcess) w3)
          else (Inl (HTTPException 500 ''Payment processing failed''),
                emit (LogError LogProcess) w3))"
  using assms
  by (auto simp add: process_payment_def health_checks_def Let_def
      split: prod.splits sum.splits)

lemma process_payment_simulated:
  assumes hc: "health_checks e w = (t, dh, fh, w2)"
    and sel: "select_processor w2 dh fh = Inr (url, name)"
    and sim: "simulated url"
  shows "process_payment e r w
     = succeed e r (make_payment_id e t r) ''local-simulator'' (emit (Sleep 0.1) w2)"
proof -
  obtain p v where s: "succeed e r (make_payment_id e t r) ''local-simulator''
      (emit (Sleep 0.1) w2) = (Inr p, v)"
    using succeed_pair by blast
  show ?thesis
    unfolding process_payment_unfold [OF hc sel] attempt_simulated [OF sim] s by simp
qed

lemma process_payment_accepted:
  assumes hc: "health_checks e w = (t, dh, fh, w2)"
    and sel: "select_processor w2 dh fh = Inr (url, name)"
    and sim: "\<not> simulated url"
    and ok: "accepted (payment_reply e (tick w2) url)"
  shows "process_payment e r w
     = succeed e r (make_payment_id e t r) name (snd (http_post e url r w2))"
proof -
  obtain p v where s: "succeed e r (make_payment_id e t r) name
         (snd (http_post e url r w2)) = (Inr p, v)"
    using succeed_pair by blast
  show ?thesis
    unfolding process_payment_unfold [OF hc sel] attempt_accepted [OF sim ok] s by simp
qed

lemma process_payment_fallback_rejected:
  assumes hc: "health_checks e w = (t, dh, fh, w2)"
    and sel: "select_processor w2 dh fh = Inr (url, name)"
    and sim: "\<not> simulated url"
    and ko: "\<not> accepted (payment_reply e (tick w2) url)"
    and name: "name \<noteq> ''default''"
  shows "process_payment e r w
     = (Inl (HTTPException 500 ''Payment processing failed''),
        emit (LogError LogProcess) (snd (http_post e url r w2)))"
proof -
  obtain x where a: "attempt e r (make_payment_id e t r) url name fh w2
      = (Inl x, snd (http_post e url r w2))"
    using attempt_rejected_fallback [OF sim ko name] by blast
  show ?thesis
    unfolding process_payment_unfold [OF hc sel] a using name by simp
qed

lemma succeed_effects:
  "\<exists>evs. effects (snd (succeed e r pid n w)) = effects w @ evs"
  by (simp add: succeed_def save_payment_def cache_payment_def emit_def time_time_def Let_def)

lemma process_with_fallback_effects:
  "\<exists>evs. effects (snd (process_with_fallback e r pid w)) = effects w @ evs"
proof (cases "simulated (fallback_url w)")
  case True
  show ?thesis
    unfolding process_with_fallback_simulated [OF True]
    using succeed_effects [of e r pid "''local-simulator-fallback''" "emit (Sleep 0.1) w"]
    by (auto simp add: emit_def)
next
  case False
  show ?thesis
  proof (cases "answered_200 (payment_reply e (tick w) (fallback_url w))")
    case True
    show ?thesis
      unfolding process_with_fallback_200 [OF False True]
      using succeed_effects [of e r pid "''fallback''" "snd (http_post e (fallback_url w) r w)"]
      by (auto simp add: http_post_effects)
  next
    case f: False
    show ?thesis
      unfolding process_with_fallback_fails [OF False f]
      by (simp add: http_post_effects emit_def)
  qed
qed

lemma process_payment_default_rejected:
  assumes hc: "health_checks e w = (t, dh, fh, w2)"
    and sel: "select_processor w2 dh fh = Inr (url, name)"
    and sim: "\<not> simulated url"
    and ko: "\<not> accepted (payment_reply e (tick w2) url)"
    and name: "name = ''default''"
  shows "\<exists>v. io_only (snd (http_post e url r w2)) v
       \<and> (\<exists>evs. effects v
             = effects (snd (http_post e url r w2)) @ evs)
       \<and> process_payment e r w = process_with_fallback e r (make_payment_id e t r) v"
proof -
  let ?post = "snd (http_post e url r w2)"
  let ?pid = "make_payment_id e t r"
  let ?att = "attempt e r ?pid url name fh w2"
  from attempt_rejected [OF sim ko]
  consider (raised) x where "?att = (Inl x, ?post)"
    | (inner) "?att = process_with_fallback e r ?pid ?post"
    by blast
  then show ?thesis
  proof cases
    case raised
    have "process_payment e r w
        = process_with_fallback e r ?pid (emit (LogError LogProcess) ?post)"
      unfolding process_payment_unfold [OF hc sel] raised using name by simp
    moreover have "effects (emit (LogError LogProcess) ?post)
        = effects ?post @ [LogError LogProcess]"
      by (simp add: emit_def)
    ultimately show ?thesis using io_only_emit by blast
  next
    case inner
    obtain res v where pf: "process_with_fallback e r ?pid ?post = (res, v)"
      by (cases "process_with_fallback e r ?pid ?post")
    have io: "io_only ?post v"
      using io_only_process_with_fallback [of ?post e r ?pid] pf by simp
    obtain evs where evs: "effects v = effects ?post @ evs"
      using process_with_fallback_effects [of e r ?pid ?post] pf by auto
    show ?thesis
    proof (cases res)
      case (Inr p)
      have "process_payment e r w = process_with_fallback e r ?pid ?post"
        unfolding process_payment_unfold [OF hc sel] inner pf Inr by simp
      moreover have "effects ?post = effects ?post @ []"
        by simp
      ultimately show ?thesis using io_only_refl by blast
    next
      case (Inl x)
      have "process_payment e r w
          = process_with_fallback e r ?pid (emit (LogError LogProcess) v)"
        unfolding process_payment_unfold [OF hc sel] inner pf Inl using name by simp
      moreover have "io_only ?post (emit (LogError LogProcess) v)"
        by (rule io_only_trans [OF io io_only_emit])
      moreover have "effects (emit (LogError LogProcess) v)
          = effects ?post @ (evs @ [LogError LogProcess])"
        by (simp add: emit_def evs)
      ultimately show ?thesis by blast
    qed
  qed
qed

lemma check_health_frame:
  "default_url (snd (check_health e u w)) = default_url w
   \<and> fallback_url (snd (check_health e u w)) = fallback_url w
   \<and> circuit_breaker (snd (check_health e u w)) = circuit_breaker w
   \<and> redis_client (snd (check_health e u w)) = redis_client w"
  by (simp add: check_health_def time_time_def http_get_def emit_def Let_def
      split: option.splits probe_outcome.splits)

lemma health_checks_frame:
  assumes "health_checks e w = (t, dh, fh, w2)"
  shows "default_url w2 = default_url w \<and> fallback_url w2 = fallback_url w
     \<and> circuit_breaker w2 = circuit_breaker w \<and> redis_client w2 = redis_client w"
proof -
  let ?w0 = "snd (time_time e w)"
  let ?w1 = "snd (check_health e (default_url ?w0) ?w0)"
  have w2: "w2 = snd (check_health e (fallback_url ?w1) ?w1)"
    using assms by (simp add: health_checks_def Let_def split: prod.splits)
  have w0: "default_url ?w0 = default_url w \<and> fallback_url ?w0 = fallback_url w
     \<and> circuit_breaker ?w0 = circuit_breaker w \<and> redis_client ?w0 = redis_client w"
    by (simp add: time_time_def)
  show ?thesis
    unfolding w2 using check_health_frame [of e "fallback_url ?w1" ?w1]
      check_health_frame [of e "default_url ?w0" ?w0] w0 by simp
qed

lemma select_processor_cases:
  "select_processor w dh fh = Inr (url, name) \<Longrightarrow>
   (url = default_url w \<and> name = ''default'') \<or> (url = fallback_url w \<and> name = ''fallback'')"
  by (auto simp add: select_processor_def split: sum.splits if_splits)

lemma select_processor_raises:
  "select_processor w dh fh = Inl x \<Longrightarrow> x = AttributeError"
  by (auto simp add: select_processor_def get_status_def
      split: sum.splits if_splits health.splits)

lemma accepted_answered: "accepted outcome \<Longrightarrow> answered_200 outcome"
  by (simp add: accepted_def answered_200_def split: post_outcome.splits)

lemma process_with_fallback_posts:
  assumes real: "\<not> simulated (fallback_url w)"
  shows "\<exists>evs. effects (snd (process_with_fallback e r pid w))
      = effects w @ PaymentPost (fallback_url w) r # evs"
proof (cases "answered_200 (payment_reply e (tick w) (fallback_url w))")
  case True
  show ?thesis
    unfolding process_with_fallback_200 [OF real True]
    using succeed_effects [of e r pid "''fallback''" "snd (http_post e (fallback_url w) r w)"]
    by (auto simp add: http_post_effects)
next
  case False
  show ?thesis
    unfolding process_with_fallback_fails [OF real False]
    by (simp add: http_post_effects emit_def)
qed

text \<open>The definitions a concrete run unfolds.\<close>

lemmas run_defs = process_payment_def check_health_def attempt_def process_with_fallback_def
  fallback_attempt_def succeed_def save_payment_def cache_payment_def select_processor_def
  get_status_def simulator_health_def simulated_def time_time_def emit_def http_get_def http_post_def
  live_world_def initial_world_def primary_def secondary_def calm_env_def sublist_code Let_def

text \<open>No method of the payment processor reads or writes the circuit breaker.\<close>

lemma cb_emit: "emit ev (w\<lparr>circuit_breaker := cb\<rparr>) = (emit ev w)\<lparr>circuit_breaker := cb\<rparr>"
  by (simp add: emit_def)

lemma cb_time:
  "time_time e (w\<lparr>circuit_breaker := cb\<rparr>)
     = (fst (time_time e w), (snd (time_time e w))\<lparr>circuit_breaker := cb\<rparr>)"
  by (simp add: time_time_def)

lemma cb_post:
  "http_post e u r (w\<lparr>circuit_breaker := cb\<rparr>)
     = (fst (http_post e u r w), (snd (http_post e u r w))\<lparr>circuit_breaker := cb\<rparr>)"
  by (simp add: http_post_def emit_def)

lemma cb_succeed:
  "succeed e r pid n (w\<lparr>circuit_breaker := cb\<rparr>)
     = (fst (succeed e r pid n w), (snd (succeed e r pid n w))\<lparr>circuit_breaker := cb\<rparr>)"
  by (simp add: succeed_def save_payment_def cache_payment_def emit_def time_time_def Let_def)

lemma cb_fallback_attempt:
  "fallback_attempt e r pid (w\<lparr>circuit_breaker := cb\<rparr>)
     = (fst (fallback_attempt e r pid w),
        (snd (fallback_attempt e r pid w))\<lparr>circuit_breaker := cb\<rparr>)"
proof (cases "http_post e (fallback_url w) r w")
  case (Pair outcome w1)
  then show ?thesis
    by (cases outcome) (simp_all add: fallback_attempt_def cb_emit cb_succeed cb_post)
qed

lemma cb_process_with_fallback:
  "process_with_fallback e r pid (w\<lparr>circuit_breaker := cb\<rparr>)
     = (fst (process_with_fallback e r pid w),
        (snd (process_with_fallback e r pid w))\<lparr>circuit_breaker := cb\<rparr>)"
proof (cases "fallback_attempt e r pid w")
  case (Pair res w1)
  then show ?thesis
    by (cases res) (simp_all add: process_with_fallback_def cb_fallback_attempt cb_emit)
qed

lemma cb_attempt:
  "attempt e r pid u n fh (w\<lparr>circuit_breaker := cb\<rparr>)
     = (fst (attempt e r pid u n fh w),
        (snd (attempt e r pid u n fh w))\<lparr>circuit_breaker := cb\<rparr>)"
proof (cases "http_post e u r w")
  case (Pair outcome w1)
  then show ?thesis
    by (cases outcome)
      (simp_all add: attempt_def cb_emit cb_succeed cb_post cb_process_with_fallback
        split: sum.splits)
qed

lemma cb_check_health:
  "check_health e u (w\<lparr>circuit_breaker := cb\<rparr>)
     = (fst (check_health e u w), (snd (check_health e u w))\<lparr>circuit_breaker := cb\<rparr>)"
  by (simp add: check_health_def time_time_def http_get_def emit_def Let_def
      split: option.splits probe_outcome.splits)

lemma cb_select:
  "select_processor (w\<lparr>circuit_breaker := cb\<rparr>) dh fh = select_processor w dh fh"
  by (simp add: select_processor_def split: sum.splits)

lemma cb_health_checks:
  "health_checks e (w\<lparr>circuit_breaker := cb\<rparr>)
     = (fst (health_checks e w), fst (snd (health_checks e w)),
        fst (snd (snd (health_checks e w))),
        (snd (snd (snd (health_checks e w))))\<lparr>circuit_breaker := cb\<rparr>)"
proof -
  obtain t w0 where t: "time_time e w = (t, w0)"
    by (rule prod.exhaust)
  obtain dh w1 where d: "check_health e (default_url w0) w0 = (dh, w1)"
    by (rule prod.exhaust)
  obtain fh w2 where f: "check_health e (fallback_url w1) w1 = (fh, w2)"
    by (rule prod.exhaust)
  have hc: "health_checks e w = (t, dh, fh, w2)"
    by (simp add: health_checks_def t d f)
  have "health_checks e (w\<lparr>circuit_breaker := cb\<rparr>)
      = (t, dh, fh, w2\<lparr>circuit_breaker := cb\<rparr>)"
    by (simp add: health_checks_def cb_time t cb_check_health d f)
  then show ?thesis
    by (simp add: hc)
qed

lemma cb_process_payment:
  "process_payment e r (w\<lparr>circuit_breaker := cb\<rparr>)
     = (fst (process_payment e r w), (snd (process_payment e r w))\<lparr>circuit_breaker := cb\<rparr>)"
proof -
  obtain t dh fh w2 where hc: "health_checks e w = (t, dh, fh, w2)"
    by (rule prod_cases4)
  have hc': "health_checks e (w\<lparr>circuit_breaker := cb\<rparr>)
      = (t, dh, fh, w2\<lparr>circuit_breaker := cb\<rparr>)"
    unfolding cb_health_checks hc by simp
  show ?thesis
  proof (cases "select_processor w2 dh fh")
    case (Inl x)
    have sel': "select_processor (w2\<lparr>circuit_breaker := cb\<rparr>) dh fh = Inl x"
      unfolding cb_select by (rule Inl)
    show ?thesis
      unfolding process_payment_unselected [OF hc Inl] process_payment_unselected [OF hc' sel']
      by simp
  next
    case (Inr sel)
    obtain url name where sel: "select_processor w2 dh fh = Inr (url, name)"
      using Inr by (cases sel) simp
    have sel': "select_processor (w2\<lparr>circuit_breaker := cb\<rparr>) dh fh = Inr (url, name)"
      unfolding cb_select by (rule sel)
    obtain res w3 where at: "attempt e r (make_payment_id e t r) url name fh w2 = (res, w3)"
      by (rule prod.exhaust)
    show ?thesis
      unfolding process_payment_unfold [OF hc sel] process_payment_unfold [OF hc' sel']
        cb_attempt at
      by (cases res) (simp_all add: cb_emit cb_process_with_fallback)
  qed
qed

lemma breaker_unchanged:
  "circuit_breaker (snd (process_payment e r w)) = circuit_breaker w"
proof -
  have "snd (process_payment e r (w\<lparr>circuit_breaker := circuit_breaker w\<rparr>))
      = (snd (process_payment e r w))\<lparr>circuit_breaker := circuit_breaker w\<rparr>"
    unfolding cb_process_payment by simp
  then have "circuit_breaker (snd (process_payment e r (w\<lparr>circuit_breaker := circuit_breaker w\<rparr>)))
      = circuit_breaker ((snd (process_payment e r w))\<lparr>circuit_breaker := circuit_breaker w\<rparr>)"
    by (rule arg_cong)
  then show ?thesis by simp
qed

lemma process_payment_posts_selected:
  assumes hc: "health_checks e w = (t, dh, fh, w2)"
    and sel: "select_processor w2 dh fh = Inr (url, name)"
    and sim: "\<not> simulated url"
  shows "PaymentPost url r \<in> set (effects (snd (process_payment e r w)))"
proof -
  let ?post = "snd (http_post e url r w2)"
  let ?pid = "make_payment_id e t r"
  have p: "PaymentPost url r \<in> set (effects ?post)"
    by (simp add: http_post_effects)
  show ?thesis
  proof (cases "accepted (payment_reply e (tick w2) url)")
    case True
    show ?thesis
      unfolding process_payment_accepted [OF hc sel sim True]
      using succeed_effects [of e r ?pid name ?post] p by auto
  next
    case False
    show ?thesis
    proof (cases "name = ''default''")
      case True
      obtain v evs where v: "effects v = effects ?post @ evs"
        "process_payment e r w = process_with_fallback e r ?pid v"
        using process_payment_default_rejected [OF hc sel sim False True] by blast
      obtain evs' where "effects (snd (process_with_fallback e r ?pid v)) = effects v @ evs'"
        using process_with_fallback_effects by blast
      then show ?thesis
        unfolding v using p by simp
    next
      case f: False
      show ?thesis
        unfolding process_payment_fallback_rejected [OF hc sel sim False f]
        using p by (simp add: emit_def)
    qed
  qed
qed

lemma process_payment_failover_succeeds:
  assumes hc: "health_checks e w = (t, dh, fh, w2)"
    and sel: "select_processor w2 dh fh = Inr (url, name)"
    and sim: "\<not> simulated url"
    and ko: "\<not> accepted (payment_reply e (tick w2) url)"
    and name: "name = ''default''"
    and real: "\<not> simulated (fallback_url w)"
    and ok: "answered_200 (payment_reply e (Suc (tick w2)) (fallback_url w))"
  shows "\<exists>v. process_payment e r w = succeed e r (make_payment_id e t r) ''fallback'' v"
proof -
  let ?post = "snd (http_post e url r w2)"
  let ?pid = "make_payment_id e t r"
  let ?att = "attempt e r ?pid url name fh w2"
  have fr: "fallback_url w2 = fallback_url w"
    using health_checks_frame [OF hc] by simp
  have fp: "fallback_url ?post = fallback_url w" "tick ?post = Suc (tick w2)"
    by (simp_all add: http_post_def emit_def fr)
  from attempt_rejected [OF sim ko]
  consider (raised) x where "?att = (Inl x, ?post)"
    | (inner) "?att = process_with_fallback e r ?pid ?post"
    by blast
  then show ?thesis
  proof cases
    case raised
    let ?v = "emit (LogError LogProcess) ?post"
    have pp: "process_payment e r w = process_with_fallback e r ?pid ?v"
      unfolding process_payment_unfold [OF hc sel] raised using name by simp
    have fv: "fallback_url ?v = fallback_url w" "tick ?v = Suc (tick w2)"
      by (simp_all add: emit_def fp)
    have "process_with_fallback e r ?pid ?v
        = succeed e r ?pid ''fallback'' (snd (http_post e (fallback_url ?v) r ?v))"
      by (rule process_with_fallback_200) (simp_all only: fv real ok not_False_eq_True)
    then show ?thesis using pp by metis
  next
    case inner
    have pf: "process_with_fallback e r ?pid ?post
        = succeed e r ?pid ''fallback'' (snd (http_post e (fallback_url ?post) r ?post))"
      by (rule process_with_fallback_200) (simp_all only: fp real ok not_False_eq_True)
    obtain p v where s: "succeed e r ?pid ''fallback''
        (snd (http_post e (fallback_url ?post) r ?post)) = (Inr p, v)"
      using succeed_pair by blast
    have "process_payment e r w = (Inr p, v)"
      unfolding process_payment_unfold [OF hc sel] inner pf s by simp
    then show ?thesis using s by metis
  qed
qed

text \<open>What a run appends to the effects.\<close>

lemma appends_refl: "appends P w w"
  by (simp add: appends_def)

lemma appends_trans: "appends P a b \<Longrightarrow> appends P b c \<Longrightarrow> appends P a c"
  by (auto simp add: appends_def)

lemma appends_emit: "P ev \<Longrightarrow> appends P w (emit ev w)"
  by (simp add: appends_def emit_def)

lemma appends_tick: "appends P w (w\<lparr>tick := n\<rparr>)"
  by (simp add: appends_def)

lemma appends_post: "P (PaymentPost url r) \<Longrightarrow> appends P w (snd (http_post e url r w))"
  by (simp add: appends_def http_post_def emit_def)

lemma succeed_effects_explicit:
  "effects (snd (succeed e r pid n w)) = effects w
     @ [if db_raises e (Suc (tick w)) then LogError LogSave
        else DbCommit \<lparr>id_resp = pid, amount_resp = amount r, status = ''processed'',
               processor = n, timestamp = clock e (tick w)\<rparr> (description r)]
     @ (if redis_client w then
          [if redis_raises e (Suc (Suc (tick w))) then LogError LogCache
           else RedisHset pid \<lparr>id_resp = pid, amount_resp = amount r, status = ''processed'',
               processor = n, timestamp = clock e (tick w)\<rparr>]
        else [])"
  by (simp add: succeed_def save_payment_def cache_payment_def emit_def time_time_def Let_def)

lemma appends_succeed_named:
  "n \<in> processor_names \<Longrightarrow> appends named w (snd (succeed e r pid n w))"
  by (simp add: appends_def succeed_effects_explicit named_def)


lemma names_simps:
  "''local-simulator'' \<in> processor_names" "''default'' \<in> processor_names"
  "''fallback'' \<in> processor_names" "''local-simulator-fallback'' \<in> processor_names"
  by (simp_all add: processor_names_def)

lemma named_simps:
  "named (PaymentPost url r)" "named (LogError site)" "named (Sleep d)" "named (HealthProbe url)"
  by (simp_all add: named_def)

lemma appends_process_with_fallback_named:
  "appends named w (snd (process_with_fallback e r pid w))"
proof (cases "simulated (fallback_url w)")
  case True
  show ?thesis
    unfolding process_with_fallback_simulated [OF True]
    by (rule appends_trans [OF appends_emit appends_succeed_named])
      (simp_all add: named_simps names_simps)
next
  case False
  show ?thesis
  proof (cases "answered_200 (payment_reply e (tick w) (fallback_url w))")
    case True
    show ?thesis
      unfolding process_with_fallback_200 [OF False True]
      by (rule appends_trans [OF appends_post appends_succeed_named])
        (simp_all add: named_simps names_simps)
  next
    case f: False
    show ?thesis
      unfolding process_with_fallback_fails [OF False f] snd_conv
      by (rule appends_trans [OF appends_post appends_emit]) (simp_all add: named_simps)
  qed
qed

lemma appends_check_health_named: "appends named w (snd (check_health e u w))"
  by (simp add: appends_def check_health_def time_time_def http_get_def emit_def Let_def
      named_simps split: option.splits probe_outcome.splits)

lemma appends_health_checks_named:
  assumes "health_checks e w = (t, dh, fh, w2)"
  shows "appends named w w2"
proof -
  let ?w0 = "snd (time_time e w)"
  let ?w1 = "snd (check_health e (default_url ?w0) ?w0)"
  have w2: "w2 = snd (check_health e (fallback_url ?w1) ?w1)"
    using assms by (simp add: health_checks_def Let_def split: prod.splits)
  have "appends named w ?w0"
    by (simp add: time_time_def appends_tick)
  then show ?thesis
    unfolding w2
    by (rule appends_trans [OF appends_trans [OF _ appends_check_health_named]
          appends_check_health_named])
qed

lemma health_checks_time:
  "health_checks e w = (t, dh, fh, w2) \<Longrightarrow> t = clock e (tick w)"
  by (simp add: health_checks_def time_time_def Let_def split: prod.splits)

text \<open>Every run of process_payment ends in one of the success blocks or raises.\<close>

lemma process_payment_selected_ends:
  assumes hc: "health_checks e w = (t, dh, fh, w2)"
    and sel: "select_processor w2 dh fh = Inr (url, name)"
  shows "(\<exists>n v. n \<in> processor_names \<and> appends named w2 v
            \<and> process_payment e r w = succeed e r (make_payment_id e t r) n v)
     \<or> ((\<exists>x. fst (process_payment e r w) = Inl x) \<and> appends named w2 (snd (process_payment e r w)))"
proof -
  let ?url = "url"
  let ?name = "name"
  let ?post = "snd (http_post e ?url r w2)"
  let ?pid = "make_payment_id e t r"
  have nm: "?name \<in> processor_names"
    using select_processor_cases [OF sel] by (auto simp add: names_simps)
  have post: "appends named w2 ?post"
    by (simp add: appends_post named_simps)
  show ?thesis
  proof (cases "simulated ?url")
    case True
    have "appends named w2 (emit (Sleep 0.1) w2)"
      by (simp add: appends_emit named_simps)
    then show ?thesis
      using process_payment_simulated [OF hc sel True, of r] names_simps(1) by blast
  next
    case real: False
    show ?thesis
    proof (cases "accepted (payment_reply e (tick w2) ?url)")
      case True
      show ?thesis
        using process_payment_accepted [OF hc sel real True, of r] nm post by blast
    next
      case ko: False
      show ?thesis
      proof (cases "?name = ''default''")
        case False
        have "appends named w2 (emit (LogError LogProcess) ?post)"
          by (rule appends_trans [OF post appends_emit]) (simp add: named_simps)
        then show ?thesis
          unfolding process_payment_fallback_rejected [OF hc sel real ko False] by simp
      next
        case True
        let ?att = "attempt e r ?pid ?url ?name fh w2"
        from attempt_rejected [OF real ko]
        consider (raised) x where "?att = (Inl x, ?post)"
          | (inner) "?att = process_with_fallback e r ?pid ?post"
          by blast
        then obtain v where v: "appends named w2 v"
          "process_payment e r w = process_with_fallback e r ?pid v"
        proof cases
          case raised
          have "process_payment e r w
              = process_with_fallback e r ?pid (emit (LogError LogProcess) ?post)"
            unfolding process_payment_unfold [OF hc sel] raised using True by simp
          moreover have "appends named w2 (emit (LogError LogProcess) ?post)"
            by (rule appends_trans [OF post appends_emit]) (simp add: named_simps)
          ultimately show ?thesis using that by blast
        next
          case inner
          obtain res v' where pf: "process_with_fallback e r ?pid ?post = (res, v')"
            by (cases "process_with_fallback e r ?pid ?post")
          have v': "appends named w2 v'"
            using appends_trans [OF post appends_process_with_fallback_named [of ?post e r ?pid]]
            unfolding pf by simp
          show ?thesis
          proof (cases res)
            case (Inr p)
            have "process_payment e r w = process_with_fallback e r ?pid ?post"
              unfolding process_payment_unfold [OF hc sel] inner pf Inr by simp
            then show ?thesis using that post by blast
          next
            case (Inl x)
            have "process_payment e r w
                = process_with_fallback e r ?pid (emit (LogError LogProcess) v')"
              unfolding process_payment_unfold [OF hc sel] inner pf Inl using True by simp
            moreover have "appends named w2 (emit (LogError LogProcess) v')"
              by (rule appends_trans [OF v' appends_emit]) (simp add: named_simps)
            ultimately show ?thesis using that by blast
          qed
        qed
        show ?thesis
        proof (cases "simulated (fallback_url v)")
          case True
          have "appends named w2 (emit (Sleep 0.1) v)"
            by (rule appends_trans [OF v(1) appends_emit]) (simp add: named_simps)
          then show ?thesis
            using v(2) process_with_fallback_simulated [OF True, of e r ?pid] names_simps(4)
            by metis
        next
          case rf: False
          show ?thesis
          proof (cases "answered_200 (payment_reply e (tick v) (fallback_url v))")
            case True
            have "appends named w2 (snd (http_post e (fallback_url v) r v))"
              by (rule appends_trans [OF v(1) appends_post]) (simp add: named_simps)
            then show ?thesis
              using v(2) process_with_fallback_200 [OF rf True, of r ?pid] names_simps(3)
              by metis
          next
            case False
            have "appends named w2 (snd (process_with_fallback e r ?pid v))"
              by (rule appends_trans [OF v(1) appends_process_with_fallback_named])
            then show ?thesis
              unfolding v(2) using process_with_fallback_fails [OF rf False, of r ?pid]
              by simp
          qed
        qed
      qed
    qed
  qed
qed

lemma process_payment_ends:
  assumes hc: "health_checks e w = (t, dh, fh, w2)"
  shows "(\<exists>n v. n \<in> processor_names \<and> appends named w2 v
            \<and> process_payment e r w = succeed e r (make_payment_id e t r) n v)
     \<or> ((\<exists>x. fst (process_payment e r w) = Inl x) \<and> appends named w2 (snd (process_payment e r w)))"
proof (cases "select_processor w2 dh fh")
  case (Inl x)
  show ?thesis
    unfolding process_payment_unselected [OF hc Inl] by (simp add: appends_refl)
next
  case (Inr sel)
  obtain url name where sel: "select_processor w2 dh fh = Inr (url, name)"
    using Inr by (cases sel) simp
  show ?thesis
    by (rule process_payment_selected_ends [OF hc sel])
qed

text \<open>The cache entries of simulated endpoints in the states a process can reach.\<close>

lemma io_only_attempt: "io_only w (snd (attempt e r pid u n fh w))"
proof (cases "simulated u")
  case True
  show ?thesis
    unfolding attempt_simulated [OF True]
    by (rule io_only_trans [OF io_only_emit io_only_succeed])
next
  case False
  show ?thesis
  proof (cases "accepted (payment_reply e (tick w) u)")
    case True
    show ?thesis
      unfolding attempt_accepted [OF False True]
      by (rule io_only_trans [OF io_only_post io_only_succeed])
  next
    case ko: False
    from attempt_rejected [OF False ko, of r pid n fh]
    show ?thesis
    proof
      assume "\<exists>x. attempt e r pid u n fh w = (Inl x, snd (http_post e u r w))"
      then show ?thesis using io_only_post by auto
    next
      assume "n = ''default'' \<and> attempt e r pid u n fh w
          = process_with_fallback e r pid (snd (http_post e u r w))"
      then have eq: "attempt e r pid u n fh w
          = process_with_fallback e r pid (snd (http_post e u r w))"
        by (rule conjunct2)
      show ?thesis
        unfolding eq by (rule io_only_trans [OF io_only_post io_only_process_with_fallback])
    qed
  qed
qed

lemma io_only_process_payment:
  assumes hc: "health_checks e w = (t, dh, fh, w2)"
  shows "io_only w2 (snd (process_payment e r w))"
proof (cases "select_processor w2 dh fh")
  case (Inl x)
  show ?thesis
    unfolding process_payment_unselected [OF hc Inl] by (simp add: io_only_refl)
next
  case (Inr pair)
  obtain url name where sel: "select_processor w2 dh fh = Inr (url, name)"
    using Inr by (cases pair) simp
  let ?pid = "make_payment_id e t r"
  obtain res w3 where at: "attempt e r ?pid url name fh w2 = (res, w3)"
    by (rule prod.exhaust)
  have io3: "io_only w2 w3"
    using io_only_attempt [of w2 e r ?pid url name fh] at by simp
  have io4: "io_only w2 (emit (LogError LogProcess) w3)"
    by (rule io_only_trans [OF io3 io_only_emit])
  show ?thesis
  proof (cases res)
    case (Inr p)
    show ?thesis
      unfolding process_payment_unfold [OF hc sel] at Inr using io3 by simp
  next
    case (Inl x)
    show ?thesis
      unfolding process_payment_unfold [OF hc sel] at Inl
      using io4 io_only_trans [OF io4 io_only_process_with_fallback] by simp
  qed
qed

lemma simulated_cached_initial: "simulated_cached (initial_world d f r)"
  by (simp add: simulated_cached_def initial_world_def)

lemma simulated_cached_check_health:
  "simulated_cached w \<Longrightarrow> simulated_cached (snd (check_health e u w))"
  by (auto simp add: simulated_cached_def check_health_def time_time_def http_get_def emit_def
      Let_def split: option.splits probe_outcome.splits)

lemma simulated_cached_io_only:
  "io_only w w' \<Longrightarrow> simulated_cached w \<Longrightarrow> simulated_cached w'"
  using io_only_fields [of w w'] by (simp add: simulated_cached_def)

lemma simulated_cached_health_checks:
  assumes "health_checks e w = (t, dh, fh, w2)" and "simulated_cached w"
  shows "simulated_cached w2"
proof -
  let ?w0 = "snd (time_time e w)"
  let ?w1 = "snd (check_health e (default_url ?w0) ?w0)"
  have w2: "w2 = snd (check_health e (fallback_url ?w1) ?w1)"
    using assms(1) by (simp add: health_checks_def Let_def split: prod.splits)
  have "simulated_cached ?w0"
    by (rule simulated_cached_io_only [OF io_only_time assms(2)])
  then show ?thesis
    unfolding w2 by (intro simulated_cached_check_health)
qed

lemma simulated_cached_process_payment:
  assumes "simulated_cached w"
  shows "simulated_cached (snd (process_payment e r w))"
proof -
  obtain t dh fh w2 where hc: "health_checks e w = (t, dh, fh, w2)"
    by (rule prod_cases4)
  show ?thesis
    by (rule simulated_cached_io_only [OF io_only_process_payment [OF hc]
          simulated_cached_health_checks [OF hc assms]])
qed


lemma check_health_simulated:
  assumes "simulated_cached w" and "simulated url"
  shows "fst (check_health e url w) = simulator_health
     \<and> effects (snd (check_health e url w)) = effects w"
  using assms
  by (cases "last_health_check w url")
    (auto simp add: simulated_cached_def check_health_def time_time_def Let_def)

lemma appends_check_health_probe:
  "appends (\<lambda>ev. ev = HealthProbe u \<or> ev = LogError LogHealth) v (snd (check_health e u v))"
  by (simp add: appends_def check_health_def time_time_def http_get_def emit_def Let_def
      split: option.splits probe_outcome.splits)

lemma health_checks_simulated_default:
  assumes hc: "health_checks e w = (t, dh, fh, w2)"
    and inv: "simulated_cached w" and sim: "simulated (default_url w)"
  shows "dh = simulator_health
     \<and> (simulated (fallback_url w) \<longrightarrow> effects w2 = effects w)
     \<and> appends (\<lambda>ev. ev = HealthProbe (fallback_url w) \<or> ev = LogError LogHealth) w w2"
proof -
  let ?w0 = "snd (time_time e w)"
  let ?w1 = "snd (check_health e (default_url ?w0) ?w0)"
  have inv0: "simulated_cached ?w0"
    by (rule simulated_cached_io_only [OF io_only_time inv])
  have u0: "default_url ?w0 = default_url w" "fallback_url ?w0 = fallback_url w"
    "effects ?w0 = effects w"
    by (simp_all add: time_time_def)
  have c1: "fst (check_health e (default_url ?w0) ?w0) = simulator_health"
    "effects ?w1 = effects w"
    using check_health_simulated [OF inv0, of "default_url ?w0" e] sim u0 by simp_all
  have inv1: "simulated_cached ?w1"
    by (rule simulated_cached_check_health [OF inv0])
  have u1: "fallback_url ?w1 = fallback_url w"
    using check_health_frame [of e "default_url ?w0" ?w0] u0 by simp
  have dh: "dh = fst (check_health e (default_url ?w0) ?w0)"
    and w2: "w2 = snd (check_health e (fallback_url ?w1) ?w1)"
    using hc by (simp_all add: health_checks_def Let_def split: prod.splits)
  have a: "simulated (fallback_url w) \<longrightarrow> effects w2 = effects w"
    unfolding w2 using check_health_simulated [OF inv1, of "fallback_url ?w1" e] u1 c1(2) by simp
  have "appends (\<lambda>ev. ev = HealthProbe (fallback_url w) \<or> ev = LogError LogHealth) ?w1
      (snd (check_health e (fallback_url w) ?w1))"
    by (rule appends_check_health_probe)
  then have b: "appends (\<lambda>ev. ev = HealthProbe (fallback_url w) \<or> ev = LogError LogHealth) w w2"
    unfolding w2 u1 by (simp add: appends_def c1(2))
  show ?thesis
    using dh c1(1) a b by simp
qed

lemma select_processor_healthy_default:
  "select_processor w simulator_health fh = Inr (default_url w, ''default'')"
  by (simp add: select_processor_def get_status_def simulator_health_def)

lemma process_payment_simulated_default:
  assumes hc: "health_checks e w = (t, dh, fh, w2)"
    and inv: "simulated_cached w" and sim: "simulated (default_url w)"
  shows "process_payment e r w
     = succeed e r (make_payment_id e t r) ''local-simulator'' (emit (Sleep 0.1) w2)"
proof -
  have dh: "dh = simulator_health"
    using health_checks_simulated_default [OF hc inv sim] by simp
  have u: "default_url w2 = default_url w"
    using health_checks_frame [OF hc] by simp
  have sel: "select_processor w2 dh fh = Inr (default_url w, ''default'')"
    unfolding dh select_processor_healthy_default u by (rule refl)
  show ?thesis
    by (rule process_payment_simulated [OF hc sel sim])
qed





section \<open>The circuit breaker opens and resets\<close>

lemma record_failure_entry:
  "circuit_breaker (record_failure e u w) u =
     Some \<lparr>last_failure = clock e (tick w),
           failure_count = (case circuit_breaker w u of None \<Rightarrow> 1 | Some en \<Rightarrow> failure_count en + 1)\<rparr>"
  by (simp add: record_failure_def time_time_def split: option.splits)








section \<open>Failover\<close>

text \<open>
  Claim C1 as stated fails. With the primary unhealthy and the secondary healthy the
  secondary is selected; its POST answers 500 and \<^verbatim>\<open>process_payment\<close> raises at once:
  the primary, the alternate of the selected endpoint, is never sent the payment.
\<close>

theorem no_failover_from_fallback:
  "fst (process_payment primary_down_env hundred live_world)
     = Inl (HTTPException 500 ''Payment processing failed'')
   \<and> effects (snd (process_payment primary_down_env hundred live_world))
     = [HealthProbe primary, HealthProbe secondary, PaymentPost secondary hundred,
        LogError LogProcess]"
  by (simp add: run_defs primary_down_env_def)

text \<open>
  The selection itself can raise. A probe answered 200 with a JSON body that is no
  object is cached and returned by \<^verbatim>\<open>check_health\<close>, and \<^verbatim>\<open>default_health.get\<close> at
  line 122, before the \<^verbatim>\<open>try\<close> of line 134, raises \<^verbatim>\<open>AttributeError\<close>: the method
  is left with no payment attempted.
\<close>

lemma non_object_health_raises:
  "fst (process_payment odd_health_env hundred live_world) = Inl AttributeError
   \<and> effects (snd (process_payment odd_health_env hundred live_world))
     = [HealthProbe primary, HealthProbe secondary]"
  by (simp add: run_defs odd_health_env_def)

text \<open>
  Claim C1, amended. Whenever lines 122 to 131 select an endpoint, that is, the health
  results they read are dictionaries: when the attempt against the selected endpoint
  fails (an exception, a status other than 200, or a 200 whose body does not decode) and
  the selected endpoint is the default one, the request is handed to
  \<^verbatim>\<open>process_with_fallback\<close>, whatever the health of the fallback endpoint and whatever
  the circuit state, and a fallback endpoint that is not simulated is sent the payment.
  When the selected endpoint is the fallback one, no other endpoint is tried and the
  error is raised at once. \<^verbatim>\<open>process_payment\<close> then raises nothing but
  \<^verbatim>\<open>HTTPException(500)\<close>, and only when the attempt against the selected endpoint
  failed and the run ends with a failed POST to the fallback endpoint.
\<close>

theorem failover_only_from_default:
  assumes hc: "health_checks e w = (t, dh, fh, w2)"
    and sel: "select_processor w2 dh fh = Inr (url, name)"
  shows "(\<not> simulated url \<and> \<not> accepted (payment_reply e (tick w2) url) \<and> name = ''default'' \<longrightarrow>
       (\<exists>v. io_only (snd (http_post e url r w2)) v
          \<and> process_payment e r w = process_with_fallback e r (make_payment_id e t r) v
          \<and> (\<not> simulated (fallback_url w) \<longrightarrow>
               PaymentPost (fallback_url w) r \<in> set (effects (snd (process_payment e r w))))))
   \<and> (\<not> simulated url \<and> \<not> accepted (payment_reply e (tick w2) url) \<and> name \<noteq> ''default'' \<longrightarrow>
       url = fallback_url w
       \<and> process_payment e r w
           = (Inl (HTTPException 500 ''Payment processing failed''),
              emit (LogError LogProcess) (snd (http_post e url r w2))))
   \<and> (\<forall>x. fst (process_payment e r w) = Inl x \<longrightarrow>
         x = HTTPException 500 ''Payment processing failed''
         \<and> \<not> simulated url \<and> \<not> accepted (payment_reply e (tick w2) url)
         \<and> \<not> simulated (fallback_url w)
         \<and> (\<exists>v site. \<not> accepted (payment_reply e (tick v) (fallback_url w))
               \<and> snd (process_payment e r w)
                   = emit (LogError site) (snd (http_post e (fallback_url w) r v))))"
proof -
  let ?pid = "make_payment_id e t r"
  have fr: "fallback_url w2 = fallback_url w"
    using health_checks_frame [OF hc] by simp
  have fb: "name \<noteq> ''default'' \<Longrightarrow> url = fallback_url w"
    using select_processor_cases [OF sel] fr by auto
  have a: "\<exists>v. io_only (snd (http_post e url r w2)) v
          \<and> process_payment e r w = process_with_fallback e r ?pid v
          \<and> (\<not> simulated (fallback_url w) \<longrightarrow>
               PaymentPost (fallback_url w) r \<in> set (effects (snd (process_payment e r w))))"
    if ra: "\<not> simulated url" "\<not> accepted (payment_reply e (tick w2) url)" "name = ''default''"
  proof -
    obtain v where v: "io_only (snd (http_post e url r w2)) v"
      "process_payment e r w = process_with_fallback e r ?pid v"
      using process_payment_default_rejected [OF hc sel ra] by blast
    have "fallback_url v = fallback_url w"
      using io_only_fields [OF v(1)] io_only_fields [OF io_only_post [of w2 e url r]] fr by simp
    then have "\<not> simulated (fallback_url w) \<longrightarrow>
        PaymentPost (fallback_url w) r \<in> set (effects (snd (process_payment e r w)))"
      using process_with_fallback_posts [of v e r ?pid] v(2) by auto
    then show ?thesis using v by blast
  qed
  have b: "url = fallback_url w
       \<and> process_payment e r w
           = (Inl (HTTPException 500 ''Payment processing failed''),
              emit (LogError LogProcess) (snd (http_post e url r w2)))"
    if rb: "\<not> simulated url" "\<not> accepted (payment_reply e (tick w2) url)" "name \<noteq> ''default''"
    using process_payment_fallback_rejected [OF hc sel rb] fb [OF rb(3)] by simp
  have c: "x = HTTPException 500 ''Payment processing failed''
         \<and> \<not> simulated url \<and> \<not> accepted (payment_reply e (tick w2) url)
         \<and> \<not> simulated (fallback_url w)
         \<and> (\<exists>v site. \<not> accepted (payment_reply e (tick v) (fallback_url w))
               \<and> snd (process_payment e r w)
                   = emit (LogError site) (snd (http_post e (fallback_url w) r v)))"
    if err: "fst (process_payment e r w) = Inl x" for x
  proof -
    have s: "\<not> simulated url"
    proof
      assume "simulated url"
      then have "process_payment e r w
          = succeed e r ?pid ''local-simulator'' (emit (Sleep 0.1) w2)"
        using process_payment_simulated [OF hc sel] by simp
      then show False using err by (simp add: succeed_result)
    qed
    have k: "\<not> accepted (payment_reply e (tick w2) url)"
    proof
      assume "accepted (payment_reply e (tick w2) url)"
      then have "process_payment e r w
          = succeed e r ?pid name (snd (http_post e url r w2))"
        using process_payment_accepted [OF hc sel s] by simp
      then show False using err by (simp add: succeed_result)
    qed
    show ?thesis
    proof (cases "name = ''default''")
      case True
      obtain v where v: "io_only (snd (http_post e url r w2)) v"
        "process_payment e r w = process_with_fallback e r ?pid v"
        using a [OF s k True] by blast
      have fv: "fallback_url v = fallback_url w"
        using io_only_fields [OF v(1)] io_only_fields [OF io_only_post [of w2 e url r]] fr by simp
      have "fst (process_with_fallback e r ?pid v) = Inl x"
        using err v(2) by simp
      from process_with_fallback_error [OF this] fv accepted_answered
      have "x = HTTPException 500 ''Payment processing failed''"
        "\<not> simulated (fallback_url w)"
        "\<not> accepted (payment_reply e (tick v) (fallback_url w))"
        "snd (process_payment e r w)
           = emit (LogError LogFallback) (snd (http_post e (fallback_url w) r v))"
        using v(2) by auto
      then show ?thesis using s k by blast
    next
      case False
      from b [OF s k False]
      have "url = fallback_url w" "x = HTTPException 500 ''Payment processing failed''"
        "snd (process_payment e r w)
           = emit (LogError LogProcess) (snd (http_post e (fallback_url w) r w2))"
        using err by auto
      then show ?thesis using s k by blast
    qed
  qed
  from a b c show ?thesis by blast
qed

theorem failover_only_from_default_witness:
  "fst (process_payment primary_down_env hundred live_world)
     = Inl (HTTPException 500 ''Payment processing failed'')
   \<and> \<not> simulated secondary
   \<and> \<not> accepted (PostResponse 500 False)"
proof -
  let ?hc = "health_checks primary_down_env live_world"
  obtain t dh fh w2 where hc: "?hc = (t, dh, fh, w2)"
    by (rule prod_cases4)
  have vals: "fst (snd ?hc) = JsonObject [(''status'', ''unhealthy''), (''error'', ''HTTP 503'')]"
    "fst (snd (snd ?hc)) = JsonObject [(''status'', ''healthy'')]"
    "fallback_url (snd (snd (snd ?hc))) = secondary"
    by (simp_all add: health_checks_def run_defs primary_down_env_def str_nat.simps digit_def)
  have v: "dh = JsonObject [(''status'', ''unhealthy''), (''error'', ''HTTP 503'')]"
    "fh = JsonObject [(''status'', ''healthy'')]" "fallback_url w2 = secondary"
    using vals unfolding hc by simp_all
  have sel: "select_processor w2 dh fh = Inr (secondary, ''fallback'')"
    by (simp add: select_processor_def get_status_def v)
  have real: "\<not> simulated secondary"
    by (simp add: simulated_def secondary_def sublist_code)
  have ko: "\<not> accepted (payment_reply primary_down_env (tick w2) secondary)"
    by (simp add: primary_down_env_def accepted_def)
  have ne: "''fallback'' \<noteq> ''default''"
    by simp
  from failover_only_from_default [OF hc sel, of hundred] real ko ne
  have "process_payment primary_down_env hundred live_world
           = (Inl (HTTPException 500 ''Payment processing failed''),
              emit (LogError LogProcess) (snd (http_post primary_down_env secondary hundred w2)))"
    by blast
  then show ?thesis
    using real by (simp add: accepted_def)
qed

section \<open>The circuit breaker and the payment path\<close>

lemma tripped_world_eq:
  "tripped_world = live_world\<lparr>circuit_breaker := [primary \<mapsto> \<lparr>last_failure = 4, failure_count = 5\<rparr>],
      tick := 5\<rparr>"
  by (simp add: tripped_world_def numeral_eq_Suc record_failure_def time_time_def
      live_world_def initial_world_def calm_env_def)

lemma record_failure_changes:
  "circuit_breaker (record_failure e u v) \<noteq> circuit_breaker v"
proof
  assume "circuit_breaker (record_failure e u v) = circuit_breaker v"
  then have eq: "circuit_breaker (record_failure e u v) u = circuit_breaker v u"
    by simp
  show False
  proof (cases "circuit_breaker v u")
    case None
    then show False using eq by (simp add: record_failure_entry)
  next
    case (Some a)
    then have "\<lparr>last_failure = clock e (tick v), failure_count = failure_count a + 1\<rparr> = a"
      using eq by (simp add: record_failure_entry)
    then have "failure_count \<lparr>last_failure = clock e (tick v),
        failure_count = failure_count a + 1\<rparr> = failure_count a"
      by (rule arg_cong)
    then show False by simp
  qed
qed

text \<open>
  Claim C2 as stated fails. After five recorded failures of the primary its circuit is
  open, and the next payment is still POSTed to the primary, which health selects.
\<close>

theorem open_circuit_still_called:
  "fst (is_circuit_open calm_env primary tripped_world)
   \<and> fst (process_payment calm_env hundred tripped_world)
       = Inr \<lparr>id_resp = ''pay_5000_0'', amount_resp = 100, status = ''processed'',
              processor = ''default'', timestamp = 11\<rparr>
   \<and> PaymentPost primary hundred
       \<in> set (effects (snd (process_payment calm_env hundred tripped_world)))"
  by (simp add: tripped_world_eq is_circuit_open_def run_defs hundred_def make_payment_id_def
      str_int_def py_int_def str_nat.simps digit_def)

text \<open>
  Claim C2, amended. \<^verbatim>\<open>process_payment\<close> does not consult the circuit breaker: its
  result and its effects are the same for every content of \<^verbatim>\<open>circuit_breaker\<close>, and
  when the circuit is open for the endpoint that health selects (not a simulated one),
  the payment is POSTed to that endpoint all the same.
\<close>

theorem process_payment_ignores_breaker:
  "(\<forall>cb. fst (process_payment e r (w\<lparr>circuit_breaker := cb\<rparr>)) = fst (process_payment e r w)
       \<and> effects (snd (process_payment e r (w\<lparr>circuit_breaker := cb\<rparr>)))
           = effects (snd (process_payment e r w)))
   \<and> (health_checks e w = (t, dh, fh, w2) \<and> select_processor w2 dh fh = Inr (url, name)
       \<and> \<not> simulated url \<and> fst (is_circuit_open e url w) \<longrightarrow>
         PaymentPost url r \<in> set (effects (snd (process_payment e r w))))"
proof -
  have a: "\<forall>cb. fst (process_payment e r (w\<lparr>circuit_breaker := cb\<rparr>)) = fst (process_payment e r w)
       \<and> effects (snd (process_payment e r (w\<lparr>circuit_breaker := cb\<rparr>)))
           = effects (snd (process_payment e r w))"
    unfolding cb_process_payment by simp
  have b: "PaymentPost url r \<in> set (effects (snd (process_payment e r w)))"
    if h: "health_checks e w = (t, dh, fh, w2)" "select_processor w2 dh fh = Inr (url, name)"
      "\<not> simulated url"
    by (rule process_payment_posts_selected [OF h])
  from a b show ?thesis by blast
qed

theorem process_payment_ignores_breaker_witness:
  "fst (is_circuit_open calm_env primary tripped_world) \<and> \<not> simulated primary
   \<and> PaymentPost primary hundred
       \<in> set (effects (snd (process_payment calm_env hundred tripped_world)))"
proof -
  let ?hc = "health_checks calm_env tripped_world"
  obtain t dh fh w2 where hc: "?hc = (t, dh, fh, w2)"
    by (rule prod_cases4)
  have vals: "fst (snd ?hc) = JsonObject [(''status'', ''healthy'')]"
    "default_url (snd (snd (snd ?hc))) = primary"
    by (simp_all add: health_checks_def run_defs tripped_world_eq)
  have v: "dh = JsonObject [(''status'', ''healthy'')]" "default_url w2 = primary"
    using vals unfolding hc by simp_all
  have sel: "select_processor w2 dh fh = Inr (primary, ''default'')"
    by (simp add: select_processor_def get_status_def v)
  have real: "\<not> simulated primary"
    by (simp add: simulated_def primary_def sublist_code)
  have opn: "fst (is_circuit_open calm_env primary tripped_world)"
    by (simp add: tripped_world_eq is_circuit_open_def time_time_def calm_env_def)
  from process_payment_ignores_breaker [of calm_env hundred tripped_world t dh fh w2
      primary "''default''"] hc sel real opn
  have "PaymentPost primary hundred
       \<in> set (effects (snd (process_payment calm_env hundred tripped_world)))"
    by blast
  then show ?thesis
    using real opn by simp
qed

text \<open>
  Claim C3 as stated fails. The primary answers 500 and the secondary 200: the record
  names the fallback processor and is processed, but the circuit breaker holds no entry
  for the primary afterwards, so \<^verbatim>\<open>record_failure\<close> was not called on it.
\<close>

theorem failover_leaves_breaker_untouched:
  "fst (process_payment primary_fails_env hundred live_world)
     = Inr \<lparr>id_resp = ''pay_0_0'', amount_resp = 100, status = ''processed'',
            processor = ''fallback'', timestamp = 7\<rparr>
   \<and> circuit_breaker (snd (process_payment primary_fails_env hundred live_world)) primary = None"
  by (simp add: run_defs primary_fails_env_def hundred_def make_payment_id_def str_int_def
      py_int_def str_nat.simps digit_def)

text \<open>
  Claim C3, amended. When the default endpoint is selected, its attempt fails and the
  POST to the fallback endpoint then answers 200, \<^verbatim>\<open>process_payment\<close> returns a record
  with processor \<^verbatim>\<open>fallback\<close>, status \<^verbatim>\<open>processed\<close> and the amount of the request.
  It calls neither \<^verbatim>\<open>record_failure\<close> nor \<^verbatim>\<open>record_success\<close>: the dictionary
  \<^verbatim>\<open>circuit_breaker\<close> is the same after the call, whereas every \<^verbatim>\<open>record_failure\<close>
  changes it.
\<close>

theorem failover_record_and_breaker:
  assumes hc: "health_checks e w = (t, dh, fh, w2)"
    and sel: "select_processor w2 dh fh = Inr (url, ''default'')"
    and sim: "\<not> simulated url"
    and ko: "\<not> accepted (payment_reply e (tick w2) url)"
    and real: "\<not> simulated (fallback_url w)"
    and ok: "answered_200 (payment_reply e (Suc (tick w2)) (fallback_url w))"
  shows "(\<exists>p. fst (process_payment e r w) = Inr p \<and> processor p = ''fallback''
          \<and> status p = ''processed'' \<and> amount_resp p = amount r)
     \<and> circuit_breaker (snd (process_payment e r w)) = circuit_breaker w
     \<and> (\<forall>e' u v. circuit_breaker (record_failure e' u v) \<noteq> circuit_breaker v)"
proof -
  obtain v where "process_payment e r w = succeed e r (make_payment_id e t r) ''fallback'' v"
    using process_payment_failover_succeeds [OF hc sel sim ko refl real ok]
    by blast
  then have "\<exists>p. fst (process_payment e r w) = Inr p \<and> processor p = ''fallback''
          \<and> status p = ''processed'' \<and> amount_resp p = amount r"
    by (simp add: succeed_result)
  then show ?thesis
    using breaker_unchanged record_failure_changes by blast
qed

theorem failover_record_and_breaker_witness:
  "\<not> simulated primary \<and> \<not> simulated secondary
   \<and> \<not> accepted (PostResponse 500 False) \<and> answered_200 (PostResponse 200 True)
   \<and> (\<exists>p. fst (process_payment primary_fails_env hundred live_world) = Inr p
         \<and> processor p = ''fallback'' \<and> status p = ''processed'' \<and> amount_resp p = 100)
   \<and> circuit_breaker (snd (process_payment primary_fails_env hundred live_world)) = Map.empty"
proof -
  let ?hc = "health_checks primary_fails_env live_world"
  obtain t dh fh w2 where hc: "?hc = (t, dh, fh, w2)"
    by (rule prod_cases4)
  have vals: "fst (snd ?hc) = JsonObject [(''status'', ''healthy'')]"
    "default_url (snd (snd (snd ?hc))) = primary"
    by (simp_all add: health_checks_def run_defs primary_fails_env_def)
  have v: "dh = JsonObject [(''status'', ''healthy'')]" "default_url w2 = primary"
    using vals unfolding hc by simp_all
  have sel: "select_processor w2 dh fh = Inr (primary, ''default'')"
    by (simp add: select_processor_def get_status_def v)
  have sim: "\<not> simulated primary" and real: "\<not> simulated secondary"
    by (simp_all add: simulated_def primary_def secondary_def sublist_code)
  have fb: "fallback_url live_world = secondary" and cb: "circuit_breaker live_world = Map.empty"
    and am: "amount hundred = 100"
    by (simp_all add: live_world_def initial_world_def hundred_def)
  have r1: "payment_reply primary_fails_env (tick w2) primary = PostResponse 500 False"
    and r2: "payment_reply primary_fails_env (Suc (tick w2)) secondary = PostResponse 200 True"
    by (simp_all add: primary_fails_env_def primary_def secondary_def)
  have ko: "\<not> accepted (PostResponse 500 False)" and ok: "answered_200 (PostResponse 200 True)"
    by (simp_all add: accepted_def answered_200_def)
  have "(\<exists>p. fst (process_payment primary_fails_env hundred live_world) = Inr p
         \<and> processor p = ''fallback'' \<and> status p = ''processed''
         \<and> amount_resp p = amount hundred)
     \<and> circuit_breaker (snd (process_payment primary_fails_env hundred live_world))
         = circuit_breaker live_world"
    using failover_record_and_breaker [OF hc sel sim, of hundred] r1 r2 ko ok real fb
    by simp
  then show ?thesis
    using sim real ko ok unfolding cb am by simp
qed

section \<open>The health cache\<close>

text \<open>
  Claim C5 against the code. The comment at line 86 allows one call every 5 seconds.
  Here the first probe of an endpoint is answered with 503; nothing is stored, and the
  second call, two seconds later, probes the endpoint again and returns another result.
\<close>

theorem failed_probe_is_not_cached:
  "clock recovering_env 2 - clock recovering_env 0 < 5
   \<and> fst (check_health recovering_env primary live_world)
       = JsonObject [(''status'', ''unhealthy''), (''error'', ''HTTP 503'')]
   \<and> fst (check_health recovering_env primary
            (snd (check_health recovering_env primary live_world)))
       = JsonObject [(''status'', ''healthy'')]
   \<and> effects (snd (check_health recovering_env primary
            (snd (check_health recovering_env primary live_world))))
       = [HealthProbe primary, HealthProbe primary]"
  by (simp add: run_defs recovering_env_def str_nat.simps digit_def)

text \<open>
  What the cache does guarantee. When the first \<^verbatim>\<open>check_health\<close> call on an
  endpoint is not served
  from the cache and stores its result (the endpoint is simulated, or the probe is
  answered with status 200), a second call on that endpoint less than 5 seconds later
  returns the same result and performs no effect at all, so no probe. After a first
  probe of a new endpoint that answers another status or raises, nothing is stored and
  the second call probes the endpoint again.
\<close>

theorem check_health_cached_after_success:
  "((simulated url \<or> health_reply e (Suc (tick w)) url = ProbeResponse 200 h)
      \<and> (\<forall>t0. last_health_check w url = Some t0 \<longrightarrow> 5 \<le> clock e (tick w) - t0)
      \<and> health_cache v url = health_cache (snd (check_health e url w)) url
      \<and> last_health_check v url = last_health_check (snd (check_health e url w)) url
      \<and> clock e (tick v) - clock e (tick w) < 5
      \<longrightarrow> fst (check_health e url v) = fst (check_health e url w)
        \<and> effects (snd (check_health e url v)) = effects v)
   \<and> (last_health_check w url = None \<and> \<not> simulated url
      \<and> (\<forall>h. health_reply e (Suc (tick w)) url \<noteq> ProbeResponse 200 h)
      \<longrightarrow> (\<exists>evs. effects (snd (check_health e url (snd (check_health e url w))))
            = effects (snd (check_health e url w)) @ HealthProbe url # evs))"
proof -
  have a: "fst (check_health e url v) = fst (check_health e url w)
        \<and> effects (snd (check_health e url v)) = effects v"
    if "simulated url \<or> health_reply e (Suc (tick w)) url = ProbeResponse 200 h"
      "\<forall>t0. last_health_check w url = Some t0 \<longrightarrow> 5 \<le> clock e (tick w) - t0"
      "health_cache v url = health_cache (snd (check_health e url w)) url"
      "last_health_check v url = last_health_check (snd (check_health e url w)) url"
      "clock e (tick v) - clock e (tick w) < 5"
    using that
    by (cases "last_health_check w url")
      (auto simp add: check_health_def time_time_def http_get_def emit_def Let_def)
  have b: "\<exists>evs. effects (snd (check_health e url (snd (check_health e url w))))
            = effects (snd (check_health e url w)) @ HealthProbe url # evs"
    if "last_health_check w url = None" "\<not> simulated url"
      "\<forall>h. health_reply e (Suc (tick w)) url \<noteq> ProbeResponse 200 h"
    using that
    by (cases "health_reply e (Suc (tick w)) url";
        cases "health_reply e (Suc (Suc (Suc (tick w)))) url")
      (auto simp add: check_health_def time_time_def http_get_def emit_def Let_def)
  from a b show ?thesis by blast
qed

theorem check_health_cached_after_success_witness:
  "\<not> simulated primary
   \<and> clock calm_env (tick (snd (check_health calm_env primary live_world)))
       - clock calm_env (tick live_world) < 5
   \<and> fst (check_health calm_env primary (snd (check_health calm_env primary live_world)))
       = JsonObject [(''status'', ''healthy'')]
   \<and> effects (snd (check_health calm_env primary (snd (check_health calm_env primary live_world))))
       = [HealthProbe primary]"
proof -
  let ?w1 = "snd (check_health calm_env primary live_world)"
  have real: "\<not> simulated primary"
    by (simp add: simulated_def primary_def sublist_code)
  have reply: "health_reply calm_env (Suc (tick live_world)) primary
      = ProbeResponse 200 (JsonObject [(''status'', ''healthy'')])"
    by (simp add: calm_env_def)
  have fresh: "\<forall>t0. last_health_check live_world primary = Some t0
      \<longrightarrow> 5 \<le> clock calm_env (tick live_world) - t0"
    by (simp add: live_world_def initial_world_def)
  have first: "fst (check_health calm_env primary live_world)
      = JsonObject [(''status'', ''healthy'')]"
    "effects ?w1 = [HealthProbe primary]" "tick ?w1 = 2" "tick live_world = 0"
    by (simp_all add: run_defs)
  have soon: "clock calm_env (tick ?w1) - clock calm_env (tick live_world) < 5"
    unfolding first by (simp add: calm_env_def)
  from check_health_cached_after_success [of primary calm_env live_world
      "JsonObject [(''status'', ''healthy'')]" ?w1] reply fresh soon
  have "fst (check_health calm_env primary ?w1) = fst (check_health calm_env primary live_world)
        \<and> effects (snd (check_health calm_env primary ?w1)) = effects ?w1"
    by blast
  then show ?thesis
    using real soon first by simp
qed

section \<open>Simulated endpoints\<close>




section \<open>Payment ids\<close>

lemma simulated_default_id:
  assumes inv: "simulated_cached w" and sim: "simulated (default_url w)"
  shows "map_sum id id_resp (fst (process_payment e r w))
     = Inr (make_payment_id e (clock e (tick w)) r)"
proof -
  obtain t dh fh w2 where hc: "health_checks e w = (t, dh, fh, w2)"
    by (rule prod_cases4)
  show ?thesis
    unfolding process_payment_simulated_default [OF hc inv sim] health_checks_time [OF hc]
    by (simp add: succeed_result)
qed

lemma make_payment_id_same_millisecond:
  "py_int (float_mul e t1 1000) = py_int (float_mul e t2 1000) \<Longrightarrow>
   make_payment_id e t1 r = make_payment_id e t2 r"
  by (simp add: make_payment_id_def)

text \<open>
  Claim C6 against the code. The id is built from the clock in whole milliseconds and
  the hash of the request. In \<open>burst_env\<close> the float product is the exact one, which
  at these clock values has the integer part of the rounded one. Two invocations with equal requests whose clock readings
  fall into the same millisecond get the same id: here two runs in a row in the default
  configuration, 60 microseconds apart, whatever the hash function of the process.
\<close>

theorem same_millisecond_same_id:
  "map_sum id id_resp (fst (process_payment (burst_env\<lparr>hash_str := h\<rparr>) hundred default_world))
     = Inr (''pay_1000000_'' @ str_int (h hundred))
   \<and> map_sum id id_resp (fst (process_payment (burst_env\<lparr>hash_str := h\<rparr>) hundred
        (snd (process_payment (burst_env\<lparr>hash_str := h\<rparr>) hundred default_world))))
     = Inr (''pay_1000000_'' @ str_int (h hundred))"
proof -
  let ?e = "burst_env\<lparr>hash_str := h\<rparr>"
  let ?w1 = "snd (process_payment ?e hundred default_world)"
  have inv0: "simulated_cached default_world"
    unfolding default_world_def by (rule simulated_cached_initial)
  have inv1: "simulated_cached ?w1"
    by (rule simulated_cached_process_payment [OF inv0])
  have w1: "default_url ?w1 = ''http://payment-processor-default:8080''" "tick ?w1 = 6"
    by (simp_all add: run_defs default_world_def burst_env_def)
  have w0: "default_url default_world = ''http://payment-processor-default:8080''"
    "tick default_world = 0"
    by (simp_all add: default_world_def initial_world_def)
  have sim: "simulated ''http://payment-processor-default:8080''"
    by (simp add: simulated_def sublist_code)
  have ms: "str_int (py_int (float_mul ?e (clock ?e 0) 1000)) = ''1000000''"
    "str_int (py_int (float_mul ?e (clock ?e 6) 1000)) = ''1000000''"
    by (simp_all add: burst_env_def calm_env_def py_int_def str_int_def str_nat.simps digit_def)
  have "map_sum id id_resp (fst (process_payment ?e hundred default_world))
      = Inr (make_payment_id ?e (clock ?e 0) hundred)"
    using simulated_default_id [OF inv0, of ?e hundred] sim unfolding w0 by simp
  moreover have "map_sum id id_resp (fst (process_payment ?e hundred ?w1))
      = Inr (make_payment_id ?e (clock ?e 6) hundred)"
    using simulated_default_id [OF inv1, of ?e hundred] sim unfolding w1 by simp
  ultimately show ?thesis
    unfolding make_payment_id_def ms by simp
qed

section \<open>Amounts\<close>

text \<open>
  Claim C7 as stated fails. In the default configuration a request with amount -1 is
  processed: the run sleeps, writes the record to the database and to Redis, and
  returns it.
\<close>

theorem negative_amount_is_processed:
  "process_payment calm_env minus_one default_world
     = (Inr \<lparr>id_resp = ''pay_0_0'', amount_resp = - 1, status = ''processed'',
             processor = ''local-simulator'', timestamp = 3\<rparr>,
        snd (process_payment calm_env minus_one default_world))
   \<and> effects (snd (process_payment calm_env minus_one default_world))
     = [Sleep 0.1,
        DbCommit \<lparr>id_resp = ''pay_0_0'', amount_resp = - 1, status = ''processed'',
             processor = ''local-simulator'', timestamp = 3\<rparr> None,
        RedisHset ''pay_0_0'' \<lparr>id_resp = ''pay_0_0'', amount_resp = - 1, status = ''processed'',
             processor = ''local-simulator'', timestamp = 3\<rparr>]"
  by (simp add: run_defs default_world_def minus_one_def make_payment_id_def str_int_def
      py_int_def str_nat.simps digit_def)

text \<open>
  Claim C7, amended. \<^verbatim>\<open>process_payment\<close> does not look at the amount. A request with
  a non-positive amount is handled like any other: when the selected endpoint is
  simulated, the run returns a processed record carrying that amount and, unless the
  database raises, commits it; when it is not simulated, the payment is POSTed to it.
\<close>

theorem non_positive_amount_not_rejected:
  assumes neg: "amount r \<le> 0"
    and hc: "health_checks e w = (t, dh, fh, w2)"
    and sel: "select_processor w2 dh fh = Inr (url, name)"
  shows "(simulated url \<longrightarrow>
          (\<exists>p. fst (process_payment e r w) = Inr p \<and> amount_resp p = amount r
             \<and> status p = ''processed''
             \<and> (\<not> db_raises e (Suc (tick w2)) \<longrightarrow>
                   DbCommit p (description r) \<in> set (effects (snd (process_payment e r w))))))
     \<and> (\<not> simulated url \<longrightarrow>
          PaymentPost url r \<in> set (effects (snd (process_payment e r w))))"
proof -
  let ?v = "emit (Sleep 0.1) w2"
  let ?pid = "make_payment_id e t r"
  have a: "\<exists>p. fst (process_payment e r w) = Inr p \<and> amount_resp p = amount r
             \<and> status p = ''processed''
             \<and> (\<not> db_raises e (Suc (tick w2)) \<longrightarrow>
                   DbCommit p (description r) \<in> set (effects (snd (process_payment e r w))))"
    if sim: "simulated url"
  proof -
    have pp: "process_payment e r w = succeed e r ?pid ''local-simulator'' ?v"
      using process_payment_simulated [OF hc sel sim] .
    have tv: "tick ?v = tick w2"
      by (simp add: emit_def)
    show ?thesis
      unfolding pp by (simp add: succeed_result succeed_effects_explicit tv)
  qed
  have b: "PaymentPost url r \<in> set (effects (snd (process_payment e r w)))"
    if real: "\<not> simulated url"
    using process_payment_posts_selected [OF hc sel real] .
  from a b show ?thesis by blast
qed

theorem non_positive_amount_not_rejected_witness:
  "amount minus_one \<le> 0
   \<and> (\<exists>p. fst (process_payment calm_env minus_one default_world) = Inr p
         \<and> amount_resp p = - 1 \<and> status p = ''processed''
         \<and> DbCommit p None \<in> set (effects (snd (process_payment calm_env minus_one default_world))))"
proof -
  let ?hc = "health_checks calm_env default_world"
  obtain t dh fh w2 where hc: "?hc = (t, dh, fh, w2)"
    by (rule prod_cases4)
  have vals: "fst (snd ?hc) = simulator_health"
    "default_url (snd (snd (snd ?hc))) = ''http://payment-processor-default:8080''"
    by (simp_all add: health_checks_def run_defs default_world_def simulator_health_def)
  have v: "dh = simulator_health" "default_url w2 = ''http://payment-processor-default:8080''"
    using vals unfolding hc by simp_all
  have sel: "select_processor w2 dh fh
      = Inr (''http://payment-processor-default:8080'', ''default'')"
    by (simp add: select_processor_def get_status_def v simulator_health_def)
  have sim: "simulated ''http://payment-processor-default:8080''"
    by (simp add: simulated_def sublist_code)
  have neg: "amount minus_one \<le> 0" and am: "amount minus_one = - 1"
    and de: "description minus_one = None"
    by (simp_all add: minus_one_def)
  have db: "\<not> db_raises calm_env (Suc (tick w2))"
    by (simp add: calm_env_def)
  from non_positive_amount_not_rejected [OF neg hc sel] sim db
  have "\<exists>p. fst (process_payment calm_env minus_one default_world) = Inr p
         \<and> amount_resp p = amount minus_one \<and> status p = ''processed''
         \<and> DbCommit p (description minus_one)
             \<in> set (effects (snd (process_payment calm_env minus_one default_world)))"
    by blast
  then show ?thesis
    using neg unfolding am de by simp
qed

section \<open>Processor names\<close>

text \<open>
  Claim C8 as stated fails. In the default configuration the record that is returned,
  committed and cached names the processor \<^verbatim>\<open>local-simulator\<close>, which is neither
  \<^verbatim>\<open>default\<close> nor \<^verbatim>\<open>fallback\<close>.
\<close>

theorem simulator_is_named_in_record:
  "fst (process_payment calm_env hundred default_world)
     = Inr \<lparr>id_resp = ''pay_0_0'', amount_resp = 100, status = ''processed'',
            processor = ''local-simulator'', timestamp = 3\<rparr>
   \<and> DbCommit \<lparr>id_resp = ''pay_0_0'', amount_resp = 100, status = ''processed'',
            processor = ''local-simulator'', timestamp = 3\<rparr> (Some ''Teste'')
       \<in> set (effects (snd (process_payment calm_env hundred default_world)))
   \<and> ''local-simulator'' \<noteq> ''default'' \<and> ''local-simulator'' \<noteq> ''fallback''"
  by (simp add: run_defs default_world_def hundred_def make_payment_id_def str_int_def
      py_int_def str_nat.simps digit_def)

text \<open>
  Claim C8, amended. The processor field of every record that \<^verbatim>\<open>process_payment\<close>
  returns, commits to the database or writes to Redis is one of the four names
  \<^verbatim>\<open>local-simulator\<close>, \<^verbatim>\<open>default\<close>, \<^verbatim>\<open>fallback\<close> and \<^verbatim>\<open>local-simulator-fallback\<close>.
\<close>

theorem records_name_one_of_four:
  "(\<forall>p. fst (process_payment e r w) = Inr p \<longrightarrow> processor p \<in> processor_names)
   \<and> (\<exists>evs. effects (snd (process_payment e r w)) = effects w @ evs
         \<and> (\<forall>ev \<in> set evs. \<forall>q. record_of ev = Some q \<longrightarrow> processor q \<in> processor_names))
   \<and> processor_names
       = {''local-simulator'', ''default'', ''fallback'', ''local-simulator-fallback''}"
proof -
  obtain t dh fh w2 where hc: "health_checks e w = (t, dh, fh, w2)"
    by (rule prod_cases4)
  have pre: "appends named w w2"
    by (rule appends_health_checks_named [OF hc])
  have both: "(\<forall>p. fst (process_payment e r w) = Inr p \<longrightarrow> processor p \<in> processor_names)
      \<and> appends named w (snd (process_payment e r w))"
    using process_payment_ends [OF hc, of r]
  proof
    assume "\<exists>n v. n \<in> processor_names \<and> appends named w2 v
        \<and> process_payment e r w = succeed e r (make_payment_id e t r) n v"
    then obtain n v where n: "n \<in> processor_names" "appends named w2 v"
      "process_payment e r w = succeed e r (make_payment_id e t r) n v"
      by blast
    have "appends named w (snd (succeed e r (make_payment_id e t r) n v))"
      by (rule appends_trans [OF appends_trans [OF pre n(2)] appends_succeed_named [OF n(1)]])
    then show ?thesis
      unfolding n(3) using n(1) by (simp add: succeed_result)
  next
    assume "(\<exists>x. fst (process_payment e r w) = Inl x)
        \<and> appends named w2 (snd (process_payment e r w))"
    then show ?thesis
      using appends_trans [OF pre] by auto
  qed
  then obtain evs where evs: "effects (snd (process_payment e r w)) = effects w @ evs"
    "list_all named evs"
    by (auto simp add: appends_def)
  have "\<forall>ev \<in> set evs. \<forall>q. record_of ev = Some q \<longrightarrow> processor q \<in> processor_names"
    using evs(2) by (auto simp add: list_all_iff named_def)
  then show ?thesis
    using both evs(1) by (auto simp add: processor_names_def)
qed

theorem records_name_one_of_four_witness:
  "fst (process_payment calm_env hundred default_world)
     = Inr \<lparr>id_resp = ''pay_0_0'', amount_resp = 100, status = ''processed'',
            processor = ''local-simulator'', timestamp = 3\<rparr>
   \<and> processor \<lparr>id_resp = ''pay_0_0'', amount_resp = 100, status = ''processed'',
            processor = ''local-simulator'', timestamp = 3\<rparr> \<in> processor_names"
proof -
  let ?p = "\<lparr>id_resp = ''pay_0_0'', amount_resp = 100, status = ''processed'',
            processor = ''local-simulator'', timestamp = 3\<rparr>"
  have run: "fst (process_payment calm_env hundred default_world) = Inr ?p"
    by (simp add: run_defs default_world_def hundred_def make_payment_id_def str_int_def
        py_int_def str_nat.simps digit_def)
  from records_name_one_of_four [of calm_env hundred default_world]
  have "processor ?p \<in> processor_names"
    using run by blast
  then show ?thesis
    using run by blast
qed

section \<open>Failures of the database and of Redis\<close>

text \<open>What the database and Redis do decides no result.\<close>

lemma st_check_health:
  "check_health (e\<lparr>db_raises := f, redis_raises := g\<rparr>) u w = check_health e u w"
  by (simp add: check_health_def time_time_def http_get_def)

lemma st_health_checks:
  "health_checks (e\<lparr>db_raises := f, redis_raises := g\<rparr>) w = health_checks e w"
  by (simp add: health_checks_def st_check_health time_time_def)

lemma st_id:
  "make_payment_id (e\<lparr>db_raises := f, redis_raises := g\<rparr>) t r = make_payment_id e t r"
  by (simp add: make_payment_id_def)

lemma st_post:
  "http_post (e\<lparr>db_raises := f, redis_raises := g\<rparr>) u r w = http_post e u r w"
  by (simp add: http_post_def)

lemma st_succeed:
  "fst (succeed (e\<lparr>db_raises := f, redis_raises := g\<rparr>) r pid n w) = fst (succeed e r pid n w)"
  by (simp add: succeed_result)

lemma st_process_with_fallback:
  "fst (process_with_fallback (e\<lparr>db_raises := f, redis_raises := g\<rparr>) r pid w)
     = fst (process_with_fallback e r pid w)
   \<and> (\<forall>x. fst (process_with_fallback e r pid w) = Inl x \<longrightarrow>
         process_with_fallback (e\<lparr>db_raises := f, redis_raises := g\<rparr>) r pid w
           = process_with_fallback e r pid w)"
proof (cases "simulated (fallback_url w)")
  case True
  show ?thesis
    unfolding process_with_fallback_simulated [OF True] by (simp add: succeed_result)
next
  case False
  let ?e = "e\<lparr>db_raises := f, redis_raises := g\<rparr>"
  have rp: "payment_reply ?e (tick w) (fallback_url w) = payment_reply e (tick w) (fallback_url w)"
    by simp
  show ?thesis
  proof (cases "answered_200 (payment_reply e (tick w) (fallback_url w))")
    case True
    have t': "answered_200 (payment_reply ?e (tick w) (fallback_url w))"
      using True by simp
    show ?thesis
      unfolding process_with_fallback_200 [OF False True]
        process_with_fallback_200 [OF False t'] st_post by (simp add: succeed_result)
  next
    case ko: False
    have k': "\<not> answered_200 (payment_reply ?e (tick w) (fallback_url w))"
      using ko by simp
    show ?thesis
      unfolding process_with_fallback_fails [OF False ko]
        process_with_fallback_fails [OF False k'] st_post by simp
  qed
qed

lemma st_attempt:
  "fst (attempt (e\<lparr>db_raises := f, redis_raises := g\<rparr>) r pid u n fh w)
     = fst (attempt e r pid u n fh w)
   \<and> (\<forall>x. fst (attempt e r pid u n fh w) = Inl x \<longrightarrow>
         attempt (e\<lparr>db_raises := f, redis_raises := g\<rparr>) r pid u n fh w
           = attempt e r pid u n fh w)"
proof (cases "simulated u")
  case True
  show ?thesis
    unfolding attempt_simulated [OF True] by (simp add: succeed_result)
next
  case False
  let ?e = "e\<lparr>db_raises := f, redis_raises := g\<rparr>"
  let ?post = "snd (http_post e u r w)"
  show ?thesis
  proof (cases "payment_reply e (tick w) u")
    case (PostRaised msg)
    then show ?thesis
      using False by (simp add: attempt_def http_post_def)
  next
    case (PostResponse code json_ok)
    show ?thesis
    proof (cases "code = 200")
      case True
      then show ?thesis
        using False PostResponse by (simp add: attempt_def http_post_def succeed_result)
    next
      case c: False
      show ?thesis
      proof (cases "n = ''default'' \<and> get_status fh = Inr (Some ''healthy'')")
        case True
        have a: "attempt e r pid u n fh w = process_with_fallback e r pid ?post"
          using False PostResponse c True by (simp add: attempt_def http_post_def)
        have a': "attempt ?e r pid u n fh w = process_with_fallback ?e r pid ?post"
          using False PostResponse c True by (simp add: attempt_def http_post_def)
        show ?thesis
          unfolding a a' by (rule st_process_with_fallback)
      next
        case n: False
        then show ?thesis
          using False PostResponse c
          by (auto simp add: attempt_def http_post_def split: sum.splits)
      qed
    qed
  qed
qed

lemma st_process_payment:
  "fst (process_payment (e\<lparr>db_raises := f, redis_raises := g\<rparr>) r w)
     = fst (process_payment e r w)"
proof -
  let ?e = "e\<lparr>db_raises := f, redis_raises := g\<rparr>"
  obtain t dh fh w2 where hc: "health_checks e w = (t, dh, fh, w2)"
    by (rule prod_cases4)
  have hc': "health_checks ?e w = (t, dh, fh, w2)"
    unfolding st_health_checks by (rule hc)
  let ?pid = "make_payment_id e t r"
  show ?thesis
  proof (cases "select_processor w2 dh fh")
    case (Inl x)
    show ?thesis
      unfolding process_payment_unselected [OF hc Inl] process_payment_unselected [OF hc' Inl]
      by simp
  next
    case (Inr pair)
    obtain u n where sel: "select_processor w2 dh fh = Inr (u, n)"
      using Inr by (cases pair) simp
    obtain res w3 where at: "attempt e r ?pid u n fh w2 = (res, w3)"
      by (rule prod.exhaust)
    obtain res' w3' where at': "attempt ?e r ?pid u n fh w2 = (res', w3')"
      by (rule prod.exhaust)
    have same: "res' = res" and err: "\<And>x. res = Inl x \<Longrightarrow> w3' = w3"
      using st_attempt [where e = e and f = f and g = g and r = r and pid = ?pid and u = u
          and n = n and fh = fh and w = w2] unfolding at at' by simp_all
    show ?thesis
    proof (cases res)
      case (Inr p)
      show ?thesis
        unfolding process_payment_unfold [OF hc sel] process_payment_unfold [OF hc' sel]
          st_id at at' same Inr by simp
    next
      case (Inl x)
      have w: "w3' = w3"
        by (rule err [OF Inl])
      show ?thesis
        unfolding process_payment_unfold [OF hc sel] process_payment_unfold [OF hc' sel]
          st_id at at' same Inl w
        using st_process_with_fallback [where e = e and f = f and g = g and r = r
            and pid = ?pid and w = "emit (LogError LogProcess) w3"]
        by simp
    qed
  qed
qed

text \<open>
  Claim C9. What \<^verbatim>\<open>process_payment\<close> returns or raises does not depend on whether the
  database or Redis raise: for every behaviour of the two stores the result is the one
  obtained when they behave as in \<open>e\<close>, so a processed record stays the same processed
  record. A raising database makes \<^verbatim>\<open>save_payment\<close> log an error and return, a
  raising Redis makes \<^verbatim>\<open>cache_payment\<close> log an error and return.
\<close>

theorem storage_failures_are_swallowed:
  "fst (process_payment (e\<lparr>db_raises := f, redis_raises := g\<rparr>) r w)
     = fst (process_payment e r w)
   \<and> (db_raises e (tick v) \<longrightarrow>
        save_payment e p d v = emit (LogError LogSave) (v\<lparr>tick := Suc (tick v)\<rparr>))
   \<and> (redis_client v \<and> redis_raises e (tick v) \<longrightarrow>
        cache_payment e p v = emit (LogError LogCache) (v\<lparr>tick := Suc (tick v)\<rparr>))"
  by (simp add: st_process_payment save_payment_def cache_payment_def)

theorem storage_failures_are_swallowed_witness:
  "db_raises storage_down_env 0 \<and> redis_client default_world \<and> redis_raises storage_down_env 0
   \<and> fst (process_payment storage_down_env hundred default_world)
       = Inr \<lparr>id_resp = ''pay_0_0'', amount_resp = 100, status = ''processed'',
              processor = ''local-simulator'', timestamp = 3\<rparr>
   \<and> save_payment storage_down_env \<lparr>id_resp = ''pay_0_0'', amount_resp = 100,
          status = ''processed'', processor = ''local-simulator'', timestamp = 3\<rparr> None
          default_world
       = emit (LogError LogSave) (default_world\<lparr>tick := Suc (tick default_world)\<rparr>)
   \<and> cache_payment storage_down_env \<lparr>id_resp = ''pay_0_0'', amount_resp = 100,
          status = ''processed'', processor = ''local-simulator'', timestamp = 3\<rparr>
          default_world
       = emit (LogError LogCache) (default_world\<lparr>tick := Suc (tick default_world)\<rparr>)"
proof -
  let ?p = "\<lparr>id_resp = ''pay_0_0'', amount_resp = 100, status = ''processed'',
              processor = ''local-simulator'', timestamp = 3\<rparr>"
  have calm: "fst (process_payment calm_env hundred default_world) = Inr ?p"
    by (simp add: run_defs default_world_def hundred_def make_payment_id_def str_int_def
        py_int_def str_nat.simps digit_def)
  have down: "storage_down_env = calm_env\<lparr>db_raises := (\<lambda>k. True), redis_raises := (\<lambda>k. True)\<rparr>"
    by (rule storage_down_env_def)
  have h: "db_raises storage_down_env (tick default_world)" "redis_client default_world"
    "redis_raises storage_down_env (tick default_world)" "tick default_world = 0"
    by (simp_all add: storage_down_env_def default_world_def initial_world_def)
  from storage_failures_are_swallowed [where e = calm_env and f = "\<lambda>k. True" and g = "\<lambda>k. True"
      and r = hundred and w = default_world]
  have a: "fst (process_payment storage_down_env hundred default_world) = Inr ?p"
    unfolding down calm by blast
  from storage_failures_are_swallowed [where e = storage_down_env and v = default_world
      and p = ?p and d = None] h
  have b: "save_payment storage_down_env ?p None default_world
       = emit (LogError LogSave) (default_world\<lparr>tick := Suc (tick default_world)\<rparr>)"
    "cache_payment storage_down_env ?p default_world
       = emit (LogError LogCache) (default_world\<lparr>tick := Suc (tick default_world)\<rparr>)"
    by blast+
  show ?thesis
    using a b h(1-3) unfolding h(4) by simp
qed

end
